theory Spec2Isabelle
  imports Main "HOL-Library.Char_ord" "HOL-Library.List_Lexorder" "HOL-Library.Multiset"
begin

section \<open>Data model (src/queues/notifyQueue.ts, lines 1-40)\<close>

text \<open>
  The string unions of \<^verbatim>\<open>NotificationItem\<close> are datatypes. Instants (\<^verbatim>\<open>Date\<close>) are
  integers: milliseconds since the epoch, as \<^verbatim>\<open>getTime()\<close> reads them.
\<close>

datatype NotificationType = SMS | Email | Push

datatype Priority = Low | Medium | High | Urgent

datatype Status = Pending | Processing | Sent | Failed | Cancelled

text \<open>
  \<^verbatim>\<open>metadata: Record<string, any>\<close>. The queue reads \<^verbatim>\<open>metadata.rideRequestUuid\<close> and
  pushes to \<^verbatim>\<open>metadata.errors\<close>; the producers also write \<^verbatim>\<open>notificationType\<close>. Every
  other key is kept as text in \<open>extra\<close>. An entry of \<open>errors\<close> is the pushed object
  \<^verbatim>\<open>{timestamp, error, retryCount}\<close>; an absent \<open>errors\<close> array is the empty list.
\<close>

type_synonym ErrorEntry = "int \<times> string \<times> nat"

record Metadata =
  rideRequestUuid :: "string option"
  notificationType :: "string option"
  errors :: "ErrorEntry list"
  extra :: "(string \<times> string) list"

text \<open>
  The optional field \<^verbatim>\<open>scheduledTime?: Date\<close> as a stored document has it: the field is
  absent, or it holds null (what the driver stores for a value of \<^verbatim>\<open>undefined\<close>), or
  it holds an instant.
\<close>

datatype StoredDate = Absent | IsNull | At int

text \<open>
  The field \<^verbatim>\<open>id\<close> is \<open>ident\<close> and \<^verbatim>\<open>type\<close> is \<open>ntype\<close> (both names are taken in HOL).
\<close>

record NotificationItem =
  ident :: string
  ntype :: NotificationType
  recipient :: string
  message :: string
  priority :: Priority
  scheduledTime :: StoredDate
  retryCount :: nat
  maxRetries :: nat
  status :: Status
  metadata :: Metadata
  createdAt :: int
  updatedAt :: int

text \<open>\<^verbatim>\<open>QueueConfig\<close>; its \<^verbatim>\<open>maxRetries\<close> is \<open>maxRetriesCfg\<close> here.\<close>

record QueueConfig =
  maxConcurrent :: nat
  retryDelays :: "int list"
  maxRetriesCfg :: nat
  batchSize :: nat
  processInterval :: int

text \<open>The defaults of the constructor (lines 32-38).\<close>

definition defaultConfig :: QueueConfig where
  "defaultConfig =
     \<lparr> maxConcurrent = 5,
       retryDelays = [1000, 5000, 15000, 60000],
       maxRetriesCfg = 3,
       batchSize = 10,
       processInterval = 1000 \<rparr>"

section \<open>The collection\<close>

text \<open>
  The collection \<^verbatim>\<open>notificationQueue\<close> is the list of its documents in insertion order.
  \<^verbatim>\<open>findOne(q)\<close> returns the first document that matches, \<^verbatim>\<open>updateOne(q, u)\<close>
  rewrites the first document that matches and \<^verbatim>\<open>updateMany(q, u)\<close> every one; the
  \<^verbatim>\<open>modifiedCount\<close> they report counts the documents the update really changed (an
  update that leaves a matched document as it was is not counted). Every operation of
  the queue is one step on this list: the store's single-document atomicity is the
  granularity of the model, and concurrent callers are an interleaving of such steps.
\<close>

fun findOne :: "('a \<Rightarrow> bool) \<Rightarrow> 'a list \<Rightarrow> 'a option" where
  "findOne q [] = None"
| "findOne q (x # xs) = (if q x then Some x else findOne q xs)"

fun updateOne :: "('a \<Rightarrow> bool) \<Rightarrow> ('a \<Rightarrow> 'a) \<Rightarrow> 'a list \<Rightarrow> 'a list \<times> nat" where
  "updateOne q u [] = ([], 0)"
| "updateOne q u (x # xs) =
     (if q x then (u x # xs, if u x = x then 0 else 1)
      else (x # fst (updateOne q u xs), snd (updateOne q u xs)))"

fun updateMany :: "('a \<Rightarrow> bool) \<Rightarrow> ('a \<Rightarrow> 'a) \<Rightarrow> 'a list \<Rightarrow> 'a list \<times> nat" where
  "updateMany q u [] = ([], 0)"
| "updateMany q u (x # xs) =
     (if q x
      then (u x # fst (updateMany q u xs),
            (if u x = x then 0 else 1) + snd (updateMany q u xs))
      else (x # fst (updateMany q u xs), snd (updateMany q u xs)))"

section \<open>Queue operations (src/queues/notifyQueue.ts)\<close>

text \<open>
  Each operation takes the clock reading \<open>now\<close> that its \<^verbatim>\<open>new Date()\<close> and
  \<^verbatim>\<open>Date.now()\<close> calls return and the collection, and returns the new collection with
  the value the method resolves to. The \<^verbatim>\<open>catch\<close> branches answer a failing store,
  which the list never is.
\<close>

text \<open>
  \<^verbatim>\<open>addNotification\<close> (lines 42-66): \<open>newId\<close> is what \<^verbatim>\<open>generateNotificationId()\<close>
  returned. The argument carries the caller's fields; \<^verbatim>\<open>id\<close>, \<^verbatim>\<open>retryCount\<close>,
  \<^verbatim>\<open>status\<close>, \<^verbatim>\<open>createdAt\<close> and \<^verbatim>\<open>updatedAt\<close> are overwritten.
\<close>

definition addNotification ::
  "int \<Rightarrow> string \<Rightarrow> NotificationItem \<Rightarrow> NotificationItem list \<Rightarrow> NotificationItem list \<times> string" where
  "addNotification now newId notification db =
     (db @ [notification\<lparr> ident := newId, retryCount := 0, status := Pending,
                            createdAt := now, updatedAt := now \<rparr>],
      newId)"

definition emptyMetadata :: Metadata where
  "emptyMetadata = \<lparr> rideRequestUuid = None, notificationType = None, errors = [], extra = [] \<rparr>"

text \<open>\<^verbatim>\<open>addSMSNotification\<close> (lines 68-77).\<close>

definition addSMSNotification ::
  "QueueConfig \<Rightarrow> int \<Rightarrow> string \<Rightarrow> string \<Rightarrow> string \<Rightarrow> Priority \<Rightarrow> Metadata \<Rightarrow>
   NotificationItem list \<Rightarrow> NotificationItem list \<times> string" where
  "addSMSNotification cfg now newId phoneNumber msg prio md db =
     addNotification now newId
       \<lparr> ident = [], ntype = SMS, recipient = phoneNumber, message = msg, priority = prio,
         scheduledTime = Absent, retryCount = 0, maxRetries = maxRetriesCfg cfg,
         status = Pending, metadata = md, createdAt = now, updatedAt = now \<rparr> db"

text \<open>\<^verbatim>\<open>addRideUpdateNotification\<close> (lines 79-88).\<close>

definition addRideUpdateNotification ::
  "QueueConfig \<Rightarrow> int \<Rightarrow> string \<Rightarrow> string \<Rightarrow> string \<Rightarrow> string \<Rightarrow> Priority \<Rightarrow>
   NotificationItem list \<Rightarrow> NotificationItem list \<times> string" where
  "addRideUpdateNotification cfg now newId serviceUser ride msg prio db =
     addNotification now newId
       \<lparr> ident = [], ntype = SMS, recipient = serviceUser, message = msg, priority = prio,
         scheduledTime = Absent, retryCount = 0, maxRetries = maxRetriesCfg cfg,
         status = Pending,
         metadata = emptyMetadata\<lparr> rideRequestUuid := Some ride,
                                    notificationType := Some ''rideUpdate'' \<rparr>,
         createdAt = now, updatedAt = now \<rparr> db"

text \<open>
  \<^verbatim>\<open>markNotificationProcessing\<close> (lines 222-239): one \<^verbatim>\<open>updateOne\<close> whose filter is
  \<^verbatim>\<open>{ id, status: 'pending' }\<close>.
\<close>

definition markNotificationProcessing ::
  "int \<Rightarrow> string \<Rightarrow> NotificationItem list \<Rightarrow> NotificationItem list \<times> bool" where
  "markNotificationProcessing now i db =
     (let result = updateOne (\<lambda>n. ident n = i \<and> status n = Pending)
                     (\<lambda>n. n\<lparr> status := Processing, updatedAt := now \<rparr>) db
      in (fst result, snd result > 0))"

text \<open>\<^verbatim>\<open>markNotificationSent\<close> (lines 241-258): the filter is \<^verbatim>\<open>{ id }\<close> alone.\<close>

definition markNotificationSent ::
  "int \<Rightarrow> string \<Rightarrow> NotificationItem list \<Rightarrow> NotificationItem list \<times> bool" where
  "markNotificationSent now i db =
     (let result = updateOne (\<lambda>n. ident n = i)
                     (\<lambda>n. n\<lparr> status := Sent, updatedAt := now \<rparr>) db
      in (fst result, snd result > 0))"

text \<open>
  \<^verbatim>\<open>markNotificationFailed\<close> (lines 260-295). \<open>retryDelay\<close> is
  \<^verbatim>\<open>this.config.retryDelays[notification.retryCount] || 60000\<close>: an index past the table
  and a table entry of 0 both give 60000. The retry decision reads the queue's
  \<^verbatim>\<open>config.maxRetries\<close>, not the item's own field. The values written are computed from
  the document \<^verbatim>\<open>findOne\<close> returned. Without a retry the source sets
  \<^verbatim>\<open>scheduledTime: undefined\<close>, which is stored as null.
\<close>

definition retryDelay :: "QueueConfig \<Rightarrow> nat \<Rightarrow> int" where
  "retryDelay cfg rc =
     (if rc < length (retryDelays cfg) \<and> retryDelays cfg ! rc \<noteq> 0
      then retryDelays cfg ! rc else 60000)"

definition failedUpdate ::
  "QueueConfig \<Rightarrow> int \<Rightarrow> string \<Rightarrow> NotificationItem \<Rightarrow> NotificationItem \<Rightarrow> NotificationItem" where
  "failedUpdate cfg now err notification n =
     (let shouldRetry = retryCount notification < maxRetriesCfg cfg;
          newStatus = (if shouldRetry then Pending else Failed);
          delay = (if shouldRetry then retryDelay cfg (retryCount notification) else 0);
          sched = (if shouldRetry then At (now + delay) else IsNull)
      in n\<lparr> status := newStatus,
             retryCount := retryCount notification + 1,
             scheduledTime := sched,
             updatedAt := now,
             metadata := (metadata n)
               \<lparr> errors := errors (metadata n) @ [(now, err, retryCount notification + 1)] \<rparr> \<rparr>)"

definition markNotificationFailed ::
  "QueueConfig \<Rightarrow> int \<Rightarrow> string \<Rightarrow> string \<Rightarrow> NotificationItem list \<Rightarrow>
   NotificationItem list \<times> bool" where
  "markNotificationFailed cfg now i err db =
     (case findOne (\<lambda>n. ident n = i) db of
        None \<Rightarrow> (db, False)
      | Some notification \<Rightarrow>
          (let result = updateOne (\<lambda>n. ident n = i) (failedUpdate cfg now err notification) db
           in (fst result, snd result > 0)))"

text \<open>\<^verbatim>\<open>cancelNotification\<close> (lines 297-314): the filter is \<^verbatim>\<open>{ id }\<close> alone.\<close>

definition cancelNotification ::
  "int \<Rightarrow> string \<Rightarrow> NotificationItem list \<Rightarrow> NotificationItem list \<times> bool" where
  "cancelNotification now i db =
     (let result = updateOne (\<lambda>n. ident n = i)
                     (\<lambda>n. n\<lparr> status := Cancelled, updatedAt := now \<rparr>) db
      in (fst result, snd result > 0))"

text \<open>
  \<^verbatim>\<open>cancelRideNotifications\<close> (lines 316-336): one \<^verbatim>\<open>updateMany\<close> over the documents
  whose \<^verbatim>\<open>metadata.rideRequestUuid\<close> is the ride and whose status is pending or
  processing; it resolves to \<^verbatim>\<open>modifiedCount\<close>.
\<close>

definition cancelRideNotifications ::
  "int \<Rightarrow> string \<Rightarrow> NotificationItem list \<Rightarrow> NotificationItem list \<times> nat" where
  "cancelRideNotifications now ride db =
     updateMany (\<lambda>n. rideRequestUuid (metadata n) = Some ride
                      \<and> (status n = Pending \<or> status n = Processing))
       (\<lambda>n. n\<lparr> status := Cancelled, updatedAt := now \<rparr>) db"

section \<open>Reading the queue (src/queues/notifyQueue.ts, lines 190-220)\<close>

text \<open>
  The field \<^verbatim>\<open>priority\<close> is stored as the string of the union, and
  \<^verbatim>\<open>.sort({ priority: -1, createdAt: 1 })\<close> compares the stored values: strings by their
  characters (the store's default binary comparison), instants by their time.
\<close>

fun priorityStr :: "Priority \<Rightarrow> string" where
  "priorityStr Low = ''low''"
| "priorityStr Medium = ''medium''"
| "priorityStr High = ''high''"
| "priorityStr Urgent = ''urgent''"

text \<open>
  \<open>sortLe a b\<close>: the sort specification places \<open>a\<close> no later than \<open>b\<close> (priority
  descending, then \<^verbatim>\<open>createdAt\<close> ascending). The store leaves the order of documents with
  equal keys open; \<open>sortDocs\<close> keeps them in collection order.
\<close>

definition sortLe :: "NotificationItem \<Rightarrow> NotificationItem \<Rightarrow> bool" where
  "sortLe a b \<longleftrightarrow>
     priorityStr (priority b) < priorityStr (priority a)
     \<or> (priorityStr (priority a) = priorityStr (priority b) \<and> createdAt a \<le> createdAt b)"

fun insertSorted :: "NotificationItem \<Rightarrow> NotificationItem list \<Rightarrow> NotificationItem list" where
  "insertSorted x [] = [x]"
| "insertSorted x (y # ys) = (if sortLe x y then x # y # ys else y # insertSorted x ys)"

definition sortDocs :: "NotificationItem list \<Rightarrow> NotificationItem list" where
  "sortDocs xs = foldr insertSorted xs []"

text \<open>\<^verbatim>\<open>.limit(n)\<close>: the first \<open>n\<close> documents; a limit of 0 is no limit.\<close>

definition limitDocs :: "nat \<Rightarrow> 'a list \<Rightarrow> 'a list" where
  "limitDocs n xs = (if n = 0 then xs else take n xs)"

text \<open>
  The filter of \<^verbatim>\<open>getPendingNotifications\<close>: \<^verbatim>\<open>status: 'pending'\<close> and
  \<^verbatim>\<open>scheduledTime\<close> absent (\<^verbatim>\<open>$exists: false\<close>) or \<^verbatim>\<open>$lte: new Date()\<close>. A field that
  holds null exists and is no instant: it matches neither branch.
\<close>

definition pendingFilter :: "int \<Rightarrow> NotificationItem \<Rightarrow> bool" where
  "pendingFilter now n \<longleftrightarrow>
     status n = Pending
     \<and> (case scheduledTime n of Absent \<Rightarrow> True | IsNull \<Rightarrow> False | At t \<Rightarrow> t \<le> now)"

definition getPendingNotifications ::
  "int \<Rightarrow> nat \<Rightarrow> NotificationItem list \<Rightarrow> NotificationItem list" where
  "getPendingNotifications now limit db = limitDocs limit (sortDocs (filter (pendingFilter now) db))"

definition getProcessingNotifications ::
  "nat \<Rightarrow> NotificationItem list \<Rightarrow> NotificationItem list" where
  "getProcessingNotifications limit db =
     limitDocs limit (sortDocs (filter (\<lambda>n. status n = Processing) db))"

section \<open>Statistics (src/queues/notifyQueue.ts, lines 338-375)\<close>

text \<open>
  The \<^verbatim>\<open>$group\<close> stage yields one \<^verbatim>\<open>{ _id: status, count }\<close> for every status that at
  least one document has. The order of the groups is the store's; each status occurs
  once, so the loop below does not depend on it.
\<close>

fun statusStr :: "Status \<Rightarrow> string" where
  "statusStr Pending = ''pending''"
| "statusStr Processing = ''processing''"
| "statusStr Sent = ''sent''"
| "statusStr Failed = ''failed''"
| "statusStr Cancelled = ''cancelled''"

definition countStatus :: "Status \<Rightarrow> NotificationItem list \<Rightarrow> nat" where
  "countStatus s db = length (filter (\<lambda>n. status n = s) db)"

definition aggregateByStatus :: "NotificationItem list \<Rightarrow> (string \<times> nat) list" where
  "aggregateByStatus db =
     filter (\<lambda>g. snd g > 0)
       (map (\<lambda>s. (statusStr s, countStatus s db)) [Pending, Processing, Sent, Failed, Cancelled])"

text \<open>
  The object \<^verbatim>\<open>stats\<close> is a dictionary from property names to numbers. The loop body
  is \<^verbatim>\<open>stats[result._id] = result.count; stats.total += result.count\<close>: the first
  assignment writes whatever key the group carries.
\<close>

definition initialStats :: "string \<rightharpoonup> nat" where
  "initialStats =
     [''pending'' \<mapsto> 0, ''processing'' \<mapsto> 0, ''sent'' \<mapsto> 0, ''failed'' \<mapsto> 0, ''total'' \<mapsto> 0]"

definition addGroup :: "(string \<rightharpoonup> nat) \<Rightarrow> string \<times> nat \<Rightarrow> (string \<rightharpoonup> nat)" where
  "addGroup stats g =
     (let stats1 = stats(fst g \<mapsto> snd g)
      in stats1(''total'' \<mapsto> (case stats1 ''total'' of Some t \<Rightarrow> t + snd g | None \<Rightarrow> snd g)))"

definition getQueueStats :: "NotificationItem list \<Rightarrow> (string \<rightharpoonup> nat)" where
  "getQueueStats db = foldl addGroup initialStats (aggregateByStatus db)"

section \<open>The dispatch loops\<close>

text \<open>
  One pass of the \<^verbatim>\<open>while\<close> loop of \<^verbatim>\<open>startProcessing\<close> (notifyQueue.ts, lines
  425-437) with \<^verbatim>\<open>processNotification\<close> (lines 445-465). \<open>pc\<close> is \<^verbatim>\<open>processingCount\<close>,
  an integer: nothing keeps it from falling below 0. The loop stops at the first
  notification for which the counter has reached \<^verbatim>\<open>maxConcurrent\<close>; a started
  notification raises the counter and issues its claim before the loop goes on. When a
  started notification finishes, the counter is lowered once if its claim succeeded and
  twice if it failed (line 451 and the \<^verbatim>\<open>finally\<close> block, line 463); \<open>dec\<close> collects
  these decrements, which take effect after the loop. The pass returns the collection
  and the counter once every started notification has finished.
\<close>

fun startEach ::
  "QueueConfig \<Rightarrow> int \<Rightarrow> NotificationItem list \<Rightarrow> int \<Rightarrow> int \<Rightarrow> NotificationItem list \<Rightarrow>
   NotificationItem list \<times> int" where
  "startEach cfg now [] pc dec db = (db, pc - dec)"
| "startEach cfg now (n # ns) pc dec db =
     (if pc \<ge> int (maxConcurrent cfg) then (db, pc - dec)
      else startEach cfg now ns (pc + 1)
             (dec + (if snd (markNotificationProcessing now (ident n) db) then 1 else 2))
             (fst (markNotificationProcessing now (ident n) db)))"

definition dispatchRound ::
  "QueueConfig \<Rightarrow> int \<Rightarrow> int \<Rightarrow> NotificationItem list \<Rightarrow> NotificationItem list \<times> int" where
  "dispatchRound cfg now pc db =
     (if pc < int (maxConcurrent cfg)
      then startEach cfg now (getPendingNotifications now (batchSize cfg) db) pc 0 db
      else (db, pc))"

text \<open>
  \<^verbatim>\<open>processNotificationQueue\<close> (src/index.ts, lines 787-826), the ten-second task.
  \<open>sendSMS\<close> is the result of \<^verbatim>\<open>twilioSender.sendSMS(notification)\<close>, an external call.
  The loop walks the two lists read at the start; every mark goes to the collection as
  it then is. The whole task runs at the one clock reading \<open>now\<close>.
\<close>

definition processOne ::
  "QueueConfig \<Rightarrow> int \<Rightarrow> (NotificationItem \<Rightarrow> bool) \<Rightarrow> NotificationItem \<Rightarrow>
   NotificationItem list \<Rightarrow> NotificationItem list" where
  "processOne cfg now sendSMS notification db =
     (let processingTime = now - createdAt notification
      in if processingTime > 30000
         then fst (markNotificationFailed cfg now (ident notification)
                     ''Timeout: Stuck in processing for over 30 seconds'' db)
         else if ntype notification = SMS
         then (if sendSMS notification
               then fst (markNotificationSent now (ident notification) db)
               else fst (markNotificationFailed cfg now (ident notification)
                           ''SMS sending failed'' db))
         else db)"

fun processEach ::
  "QueueConfig \<Rightarrow> int \<Rightarrow> (NotificationItem \<Rightarrow> bool) \<Rightarrow> NotificationItem list \<Rightarrow>
   NotificationItem list \<Rightarrow> NotificationItem list" where
  "processEach cfg now sendSMS [] db = db"
| "processEach cfg now sendSMS (n # ns) db =
     processEach cfg now sendSMS ns (processOne cfg now sendSMS n db)"

definition processNotificationQueue ::
  "QueueConfig \<Rightarrow> int \<Rightarrow> (NotificationItem \<Rightarrow> bool) \<Rightarrow> NotificationItem list \<Rightarrow>
   NotificationItem list" where
  "processNotificationQueue cfg now sendSMS db =
     (let pendingNotifications = getPendingNotifications now (batchSize cfg) db;
          processingNotifications = getProcessingNotifications (batchSize cfg) db;
          allNotifications = pendingNotifications @ processingNotifications
      in processEach cfg now sendSMS allNotifications db)"

section \<open>Sequences of queue operations\<close>

datatype QueueOp =
    MarkProcessing string
  | MarkSent string
  | MarkFailed string string
  | CancelOne string
  | CancelRide string

fun applyOp :: "QueueConfig \<Rightarrow> int \<Rightarrow> QueueOp \<Rightarrow> NotificationItem list \<Rightarrow> NotificationItem list" where
  "applyOp cfg now (MarkProcessing i) db = fst (markNotificationProcessing now i db)"
| "applyOp cfg now (MarkSent i) db = fst (markNotificationSent now i db)"
| "applyOp cfg now (MarkFailed i err) db = fst (markNotificationFailed cfg now i err db)"
| "applyOp cfg now (CancelOne i) db = fst (cancelNotification now i db)"
| "applyOp cfg now (CancelRide r) db = fst (cancelRideNotifications now r db)"

text \<open>A run: the operations in order, each with the clock reading of its call.\<close>

definition runOps ::
  "QueueConfig \<Rightarrow> (int \<times> QueueOp) list \<Rightarrow> NotificationItem list \<Rightarrow> NotificationItem list" where
  "runOps cfg ops db = foldl (\<lambda>d c. applyOp cfg (fst c) (snd c) d) db ops"

text \<open>\<open>markFailedAt\<close>: \<^verbatim>\<open>markNotificationFailed(i, err)\<close> called once at each of the given instants.\<close>

definition markFailedAt ::
  "QueueConfig \<Rightarrow> string \<Rightarrow> string \<Rightarrow> int list \<Rightarrow> NotificationItem list \<Rightarrow> NotificationItem list" where
  "markFailedAt cfg i err ts db = runOps cfg (map (\<lambda>t. (t, MarkFailed i err)) ts) db"

section \<open>Ride events (src/events/rideEvents.ts)\<close>

datatype RideEventType =
    REQUEST_CREATED | REQUEST_CONFIRMED | REQUEST_CANCELED | DRIVER_ASSIGNED | VEHICLE_ASSIGNED
  | RIDE_STARTED | RIDE_INTERRUPTED | RIDER_PICKED_UP | RIDER_NOT_PICKED_UP
  | RIDER_DROPPED_OFF | RIDER_NOT_DROPPED_OFF | ROUNDTRIP_RETURNING
  | ROUNDTRIP_RETURN_INTERRUPTED | ROUNDTRIP_COMPLETE | ROUNDTRIP_COMPLETION_INTERRUPTED
  | RIDE_COMPLETE | RIDE_INCOMPLETE | EMERGENCY_ALERT

text \<open>A JavaScript number that \<^verbatim>\<open>parseInt\<close> returns: an integer or \<^verbatim>\<open>NaN\<close>.\<close>

datatype JsNum = NaN | Num int

text \<open>
  \<^verbatim>\<open>RideEvent\<close> (lines 64-74). The fields \<^verbatim>\<open>id\<close>, \<^verbatim>\<open>rideRequestUuid\<close>,
  \<^verbatim>\<open>metadata\<close> and \<^verbatim>\<open>createdAt\<close> carry the suffix \<open>E\<close>; an optional field that the
  object literal omits is \<open>None\<close>.
\<close>

record RideEvent =
  identE :: string
  rideRequestUuidE :: int
  serviceUserUuid :: string
  driverUuid :: "JsNum option"
  vehicleUuid :: "JsNum option"
  eventType :: RideEventType
  timestamp :: int
  metadataE :: "(string \<times> string) list"
  createdAtE :: int

text \<open>
  The fields of the ride document that the status translator reads
  (\<^verbatim>\<open>rideRequest: any\<close> in src/index.ts).
\<close>

record RideRequest =
  uuid :: int
  serviceUserUuidR :: string
  assignedDriverUuid :: "int option"
  assignedVehicleUuid :: "int option"

text \<open>
  The event manager's observable state: the collection \<^verbatim>\<open>rideEvents\<close> that
  \<^verbatim>\<open>storeEvent\<close> inserts into, and the log of \<^verbatim>\<open>emit(eventType, event)\<close> calls, each of
  which runs the handlers registered for that type.
\<close>

record RideEventManager =
  rideEvents :: "RideEvent list"
  emitted :: "(RideEventType \<times> RideEvent) list"

definition storeEvent :: "RideEvent \<Rightarrow> RideEventManager \<Rightarrow> RideEventManager" where
  "storeEvent event mgr = mgr\<lparr> rideEvents := rideEvents mgr @ [event] \<rparr>"

definition emit :: "RideEventType \<Rightarrow> RideEvent \<Rightarrow> RideEventManager \<Rightarrow> RideEventManager" where
  "emit ty event mgr = mgr\<lparr> emitted := emitted mgr @ [(ty, event)] \<rparr>"

text \<open>
  The argument \<^verbatim>\<open>rideRequest.assignedDriverUuid?.toString() || ''\<close> followed by
  \<^verbatim>\<open>parseInt\<close> in the manager. A number is modelled by its integer value. Below
  \<open>10\<^sup>2\<^sup>1\<close> in magnitude \<^verbatim>\<open>toString()\<close> writes all digits and \<^verbatim>\<open>parseInt\<close> reads the
  integer back; from there on it writes exponent notation (one digit, then a point or
  the exponent), of which \<^verbatim>\<open>parseInt\<close> reads the sign and the first digit. A ride
  without the field gives the empty string, and \<^verbatim>\<open>parseInt('')\<close> is \<^verbatim>\<open>NaN\<close>.
\<close>

fun leadingDigit :: "nat \<Rightarrow> nat" where
  "leadingDigit n = (if n < 10 then n else leadingDigit (n div 10))"

definition parseIntOf :: "int option \<Rightarrow> JsNum" where
  "parseIntOf d =
     (case d of
        None \<Rightarrow> NaN
      | Some k \<Rightarrow>
          (if \<bar>k\<bar> < 10 ^ 21 then Num k
           else Num (sgn k * int (leadingDigit (nat \<bar>k\<bar>)))))"

text \<open>
  The object literal the creators share: \<open>newId\<close> is what \<^verbatim>\<open>generateEventId()\<close> returned
  and \<open>now\<close> the clock reading.
\<close>

definition baseEvent :: "string \<Rightarrow> int \<Rightarrow> int \<Rightarrow> string \<Rightarrow> RideEventType \<Rightarrow> RideEvent" where
  "baseEvent newId now ride user ty =
     \<lparr> identE = newId, rideRequestUuidE = ride, serviceUserUuid = user, driverUuid = None,
       vehicleUuid = None, eventType = ty, timestamp = now, metadataE = [], createdAtE = now \<rparr>"

definition requestConfirmed :: "string \<Rightarrow> int \<Rightarrow> int \<Rightarrow> string \<Rightarrow> RideEventManager \<Rightarrow> RideEventManager" where
  "requestConfirmed newId now ride user mgr =
     (let event = baseEvent newId now ride user REQUEST_CONFIRMED
      in emit REQUEST_CONFIRMED event (storeEvent event mgr))"

definition requestCanceled ::
  "string \<Rightarrow> int \<Rightarrow> int \<Rightarrow> string \<Rightarrow> string \<Rightarrow> RideEventManager \<Rightarrow> RideEventManager" where
  "requestCanceled newId now ride user reason mgr =
     (let event = (baseEvent newId now ride user REQUEST_CANCELED)\<lparr> metadataE := [(''reason'', reason)] \<rparr>
      in emit REQUEST_CANCELED event (storeEvent event mgr))"

definition rideStarted ::
  "string \<Rightarrow> int \<Rightarrow> int \<Rightarrow> string \<Rightarrow> int option \<Rightarrow> int option \<Rightarrow> RideEventManager \<Rightarrow> RideEventManager" where
  "rideStarted newId now ride user driver vehicle mgr =
     (let event = (baseEvent newId now ride user RIDE_STARTED)
                    \<lparr> driverUuid := Some (parseIntOf driver), vehicleUuid := Some (parseIntOf vehicle) \<rparr>
      in emit RIDE_STARTED event (storeEvent event mgr))"

definition rideInterrupted ::
  "string \<Rightarrow> int \<Rightarrow> int \<Rightarrow> string \<Rightarrow> string \<Rightarrow> RideEventManager \<Rightarrow> RideEventManager" where
  "rideInterrupted newId now ride user reason mgr =
     (let event = (baseEvent newId now ride user RIDE_INTERRUPTED)\<lparr> metadataE := [(''reason'', reason)] \<rparr>
      in emit RIDE_INTERRUPTED event (storeEvent event mgr))"

definition riderPickedUp ::
  "string \<Rightarrow> int \<Rightarrow> int \<Rightarrow> string \<Rightarrow> int option \<Rightarrow> RideEventManager \<Rightarrow> RideEventManager" where
  "riderPickedUp newId now ride user driver mgr =
     (let event = (baseEvent newId now ride user RIDER_PICKED_UP)\<lparr> driverUuid := Some (parseIntOf driver) \<rparr>
      in emit RIDER_PICKED_UP event (storeEvent event mgr))"

definition riderNotPickedUp ::
  "string \<Rightarrow> int \<Rightarrow> int \<Rightarrow> string \<Rightarrow> string \<Rightarrow> RideEventManager \<Rightarrow> RideEventManager" where
  "riderNotPickedUp newId now ride user reason mgr =
     (let event = (baseEvent newId now ride user RIDER_NOT_PICKED_UP)\<lparr> metadataE := [(''reason'', reason)] \<rparr>
      in emit RIDER_NOT_PICKED_UP event (storeEvent event mgr))"

definition riderDroppedOff ::
  "string \<Rightarrow> int \<Rightarrow> int \<Rightarrow> string \<Rightarrow> int option \<Rightarrow> RideEventManager \<Rightarrow> RideEventManager" where
  "riderDroppedOff newId now ride user driver mgr =
     (let event = (baseEvent newId now ride user RIDER_DROPPED_OFF)\<lparr> driverUuid := Some (parseIntOf driver) \<rparr>
      in emit RIDER_DROPPED_OFF event (storeEvent event mgr))"

definition riderNotDroppedOff ::
  "string \<Rightarrow> int \<Rightarrow> int \<Rightarrow> string \<Rightarrow> string \<Rightarrow> RideEventManager \<Rightarrow> RideEventManager" where
  "riderNotDroppedOff newId now ride user reason mgr =
     (let event = (baseEvent newId now ride user RIDER_NOT_DROPPED_OFF)\<lparr> metadataE := [(''reason'', reason)] \<rparr>
      in emit RIDER_NOT_DROPPED_OFF event (storeEvent event mgr))"

definition roundtripReturning ::
  "string \<Rightarrow> int \<Rightarrow> int \<Rightarrow> string \<Rightarrow> int option \<Rightarrow> RideEventManager \<Rightarrow> RideEventManager" where
  "roundtripReturning newId now ride user driver mgr =
     (let event = (baseEvent newId now ride user ROUNDTRIP_RETURNING)\<lparr> driverUuid := Some (parseIntOf driver) \<rparr>
      in emit ROUNDTRIP_RETURNING event (storeEvent event mgr))"

definition roundtripReturnInterrupted ::
  "string \<Rightarrow> int \<Rightarrow> int \<Rightarrow> string \<Rightarrow> string \<Rightarrow> RideEventManager \<Rightarrow> RideEventManager" where
  "roundtripReturnInterrupted newId now ride user reason mgr =
     (let event = (baseEvent newId now ride user ROUNDTRIP_RETURN_INTERRUPTED)
                    \<lparr> metadataE := [(''reason'', reason)] \<rparr>
      in emit ROUNDTRIP_RETURN_INTERRUPTED event (storeEvent event mgr))"

definition roundtripComplete ::
  "string \<Rightarrow> int \<Rightarrow> int \<Rightarrow> string \<Rightarrow> int option \<Rightarrow> RideEventManager \<Rightarrow> RideEventManager" where
  "roundtripComplete newId now ride user driver mgr =
     (let event = (baseEvent newId now ride user ROUNDTRIP_COMPLETE)\<lparr> driverUuid := Some (parseIntOf driver) \<rparr>
      in emit ROUNDTRIP_COMPLETE event (storeEvent event mgr))"

definition roundtripCompletionInterrupted ::
  "string \<Rightarrow> int \<Rightarrow> int \<Rightarrow> string \<Rightarrow> string \<Rightarrow> RideEventManager \<Rightarrow> RideEventManager" where
  "roundtripCompletionInterrupted newId now ride user reason mgr =
     (let event = (baseEvent newId now ride user ROUNDTRIP_COMPLETION_INTERRUPTED)
                    \<lparr> metadataE := [(''reason'', reason)] \<rparr>
      in emit ROUNDTRIP_COMPLETION_INTERRUPTED event (storeEvent event mgr))"

definition rideComplete ::
  "string \<Rightarrow> int \<Rightarrow> int \<Rightarrow> string \<Rightarrow> int option \<Rightarrow> RideEventManager \<Rightarrow> RideEventManager" where
  "rideComplete newId now ride user driver mgr =
     (let event = (baseEvent newId now ride user RIDE_COMPLETE)\<lparr> driverUuid := Some (parseIntOf driver) \<rparr>
      in emit RIDE_COMPLETE event (storeEvent event mgr))"

definition rideIncomplete ::
  "string \<Rightarrow> int \<Rightarrow> int \<Rightarrow> string \<Rightarrow> string \<Rightarrow> RideEventManager \<Rightarrow> RideEventManager" where
  "rideIncomplete newId now ride user reason mgr =
     (let event = (baseEvent newId now ride user RIDE_INCOMPLETE)\<lparr> metadataE := [(''reason'', reason)] \<rparr>
      in emit RIDE_INCOMPLETE event (storeEvent event mgr))"

text \<open>
  \<^verbatim>\<open>handleAutomaticRideStatusChange\<close> (src/index.ts, lines 370-475): the switch over the
  new ride-progress code. \<^verbatim>\<open>previousStatus\<close> is only logged. A code without a case
  leaves the manager as it is.
\<close>

definition handleAutomaticRideStatusChange ::
  "string \<Rightarrow> int \<Rightarrow> RideRequest \<Rightarrow> int \<Rightarrow> int \<Rightarrow> RideEventManager \<Rightarrow> RideEventManager" where
  "handleAutomaticRideStatusChange newId now rideRequest newStatus previousStatus mgr =
     (if newStatus = 100 then
        requestConfirmed newId now (uuid rideRequest) (serviceUserUuidR rideRequest) mgr
      else if newStatus = 109 then
        requestCanceled newId now (uuid rideRequest) (serviceUserUuidR rideRequest)
          ''Cancelled automatically'' mgr
      else if newStatus = 200 then
        rideStarted newId now (uuid rideRequest) (serviceUserUuidR rideRequest)
          (assignedDriverUuid rideRequest) (assignedVehicleUuid rideRequest) mgr
      else if newStatus = 209 then
        rideInterrupted newId now (uuid rideRequest) (serviceUserUuidR rideRequest)
          ''Ride interrupted'' mgr
      else if newStatus = 300 then
        riderPickedUp newId now (uuid rideRequest) (serviceUserUuidR rideRequest)
          (assignedDriverUuid rideRequest) mgr
      else if newStatus = 309 then
        riderNotPickedUp newId now (uuid rideRequest) (serviceUserUuidR rideRequest)
          ''Rider not picked up'' mgr
      else if newStatus = 400 then
        riderDroppedOff newId now (uuid rideRequest) (serviceUserUuidR rideRequest)
          (assignedDriverUuid rideRequest) mgr
      else if newStatus = 409 then
        riderNotDroppedOff newId now (uuid rideRequest) (serviceUserUuidR rideRequest)
          ''Rider not dropped off'' mgr
      else if newStatus = 450 then
        roundtripReturning newId now (uuid rideRequest) (serviceUserUuidR rideRequest)
          (assignedDriverUuid rideRequest) mgr
      else if newStatus = 459 then
        roundtripReturnInterrupted newId now (uuid rideRequest) (serviceUserUuidR rideRequest)
          ''Roundtrip return interrupted'' mgr
      else if newStatus = 475 then
        roundtripComplete newId now (uuid rideRequest) (serviceUserUuidR rideRequest)
          (assignedDriverUuid rideRequest) mgr
      else if newStatus = 479 then
        roundtripCompletionInterrupted newId now (uuid rideRequest) (serviceUserUuidR rideRequest)
          ''Roundtrip completion interrupted'' mgr
      else if newStatus = 500 then
        rideComplete newId now (uuid rideRequest) (serviceUserUuidR rideRequest)
          (assignedDriverUuid rideRequest) mgr
      else if newStatus = 509 then
        rideIncomplete newId now (uuid rideRequest) (serviceUserUuidR rideRequest)
          ''Ride marked as incomplete'' mgr
      else mgr)"

section \<open>Statements about runs\<close>

text \<open>
  \<open>firstMatchAt q db k\<close>: position \<open>k\<close> holds the first document of the collection
  that matches \<open>q\<close>, the one \<^verbatim>\<open>findOne(q)\<close> returns and \<^verbatim>\<open>updateOne(q, u)\<close> rewrites.
\<close>

fun firstMatchAt :: "('a \<Rightarrow> bool) \<Rightarrow> 'a list \<Rightarrow> nat \<Rightarrow> bool" where
  "firstMatchAt q [] k = False"
| "firstMatchAt q (x # xs) 0 = q x"
| "firstMatchAt q (x # xs) (Suc k) = (\<not> q x \<and> firstMatchAt q xs k)"

text \<open>
  \<open>failedOnce\<close>: the update of \<open>markNotificationFailed\<close> applied to the very document
  that \<^verbatim>\<open>findOne\<close> returned, which is the document \<^verbatim>\<open>updateOne\<close> rewrites.
\<close>

definition failedOnce :: "QueueConfig \<Rightarrow> string \<Rightarrow> NotificationItem \<Rightarrow> int \<Rightarrow> NotificationItem" where
  "failedOnce cfg err n t = failedUpdate cfg t err n n"

section \<open>Example queues\<close>

text \<open>
  Concrete queues, built with the producers above, on which the theorems below are
  instantiated.
\<close>

definition queueOne :: "NotificationItem list" where
  "queueOne =
     fst (addSMSNotification defaultConfig 1000 ''notif_1'' ''+15550100'' ''Your ride is confirmed''
            Medium emptyMetadata [])"

text \<open>
  Four ride updates: three for ride 42 (one left pending, one claimed, one sent) and a
  pending one for ride 43.
\<close>

definition queueRides :: "NotificationItem list" where
  "queueRides =
     (let d1 = fst (addRideUpdateNotification defaultConfig 1000 ''notif_1'' ''user_a'' ''42''
                      ''A driver has been assigned'' Medium []);
          d2 = fst (addRideUpdateNotification defaultConfig 1100 ''notif_2'' ''user_a'' ''42''
                      ''Your driver is on the way'' High d1);
          d3 = fst (addRideUpdateNotification defaultConfig 1200 ''notif_3'' ''user_a'' ''42''
                      ''Your ride request was received'' Medium d2);
          d4 = fst (addRideUpdateNotification defaultConfig 1300 ''notif_4'' ''user_b'' ''43''
                      ''Your ride request was received'' Medium d3);
          d5 = fst (markNotificationProcessing 1400 ''notif_2'' d4)
      in fst (markNotificationSent 1500 ''notif_3'' d5))"

text \<open>A high and a medium notification enqueued at the same instant, the high one first.\<close>

definition queueHighMedium :: "NotificationItem list" where
  "queueHighMedium =
     (let d1 = fst (addSMSNotification defaultConfig 1000 ''notif_1'' ''+15550100''
                      ''Your driver is running late'' High emptyMetadata [])
      in fst (addSMSNotification defaultConfig 1000 ''notif_2'' ''+15550101''
                ''Your ride is confirmed'' Medium emptyMetadata d1))"

text \<open>A claim followed by a failed send, a second claim and a successful send.\<close>

definition exampleOps :: "(int \<times> QueueOp) list" where
  "exampleOps =
     [(2000, MarkProcessing ''notif_1''),
      (3000, MarkFailed ''notif_1'' ''SMS sending failed''),
      (5000, MarkProcessing ''notif_1''),
      (6000, MarkSent ''notif_1'')]"

text \<open>Two medium notifications, enqueued half a second apart.\<close>

definition queueTwo :: "NotificationItem list" where
  "queueTwo =
     (let d1 = fst (addSMSNotification defaultConfig 1000 ''notif_1'' ''+15550100''
                      ''Your ride is confirmed'' Medium emptyMetadata [])
      in fst (addSMSNotification defaultConfig 1500 ''notif_2'' ''+15550101''
                ''Your ride is confirmed'' Medium emptyMetadata d1))"

text \<open>A reminder enqueued at 1000 for the instant 11000 (ten seconds later).\<close>

definition queueScheduled :: "NotificationItem list" where
  "queueScheduled =
     fst (addNotification 1000 ''notif_1''
            \<lparr> ident = [], ntype = SMS, recipient = ''user_a'',
              message = ''Reminder: your ride is scheduled for pickup'', priority = Medium,
              scheduledTime = At 11000, retryCount = 0, maxRetries = 3, status = Pending,
              metadata = emptyMetadata\<lparr> rideRequestUuid := Some ''42'',
                                         notificationType := Some ''pickupReminder'' \<rparr>,
              createdAt = 0, updatedAt = 0 \<rparr> [])"

section \<open>Facts about the collection primitives\<close>

lemma findOne_None_iff: "findOne q xs = None \<longleftrightarrow> (\<forall>x \<in> set xs. \<not> q x)"
  by (induction xs) auto

lemma updateOne_no_match: "findOne q xs = None \<Longrightarrow> updateOne q u xs = (xs, 0)"
  by (induction xs) (auto split: if_splits)

lemma length_updateOne: "length (fst (updateOne q u xs)) = length xs"
  by (induction xs) auto

lemma length_updateMany: "length (fst (updateMany q u xs)) = length xs"
  by (induction xs) auto

lemma updateOne_nth_unmatched:
  "k < length xs \<Longrightarrow> \<not> q (xs ! k) \<Longrightarrow> fst (updateOne q u xs) ! k = xs ! k"
  by (induction xs arbitrary: k) (auto simp: nth_Cons split: nat.splits)

lemma updateOne_nth_cases:
  "k < length xs \<Longrightarrow>
     fst (updateOne q u xs) ! k = xs ! k
     \<or> (q (xs ! k) \<and> findOne q xs = Some (xs ! k) \<and> fst (updateOne q u xs) ! k = u (xs ! k))"
  by (induction xs arbitrary: k) (auto simp: nth_Cons split: nat.splits)

lemma updateOne_modified_iff:
  "(\<And>x. q x \<Longrightarrow> u x \<noteq> x) \<Longrightarrow> (snd (updateOne q u xs) > 0) = (\<exists>x \<in> set xs. q x)"
  by (induction xs) auto

lemma updateOne_first_match:
  "\<exists>x \<in> set xs. q x \<Longrightarrow>
   \<exists>k < length xs. q (xs ! k) \<and> (\<forall>j < k. \<not> q (xs ! j)) \<and> fst (updateOne q u xs) = xs[k := u (xs ! k)]"
proof (induction xs)
  case Nil
  then show ?case by simp
next
  case (Cons a xs)
  show ?case
  proof (cases "q a")
    case True
    then have "q ((a # xs) ! 0) \<and> (\<forall>j < 0. \<not> q ((a # xs) ! j))
               \<and> fst (updateOne q u (a # xs)) = (a # xs)[0 := u ((a # xs) ! 0)]"
      by simp
    then show ?thesis by blast
  next
    case False
    with Cons.prems have "\<exists>x \<in> set xs. q x" by auto
    from Cons.IH[OF this] obtain k where k: "k < length xs" "q (xs ! k)" "\<forall>j < k. \<not> q (xs ! j)"
      "fst (updateOne q u xs) = xs[k := u (xs ! k)]" by blast
    have "Suc k < length (a # xs)" using k by simp
    moreover have "q ((a # xs) ! Suc k)" using k by simp
    moreover have "\<forall>j < Suc k. \<not> q ((a # xs) ! j)"
      using k False by (auto simp: nth_Cons split: nat.splits)
    moreover have "fst (updateOne q u (a # xs)) = (a # xs)[Suc k := u ((a # xs) ! Suc k)]"
      using k False by simp
    ultimately show ?thesis by blast
  qed
qed

section \<open>The claim operation\<close>

lemma claim_result_iff:
  "snd (markNotificationProcessing now i db) = (\<exists>n \<in> set db. ident n = i \<and> status n = Pending)"
proof -
  have "x\<lparr> status := Processing, updatedAt := now \<rparr> \<noteq> x"
    if a: "ident x = i \<and> status x = Pending" for x :: NotificationItem
  proof
    assume "x\<lparr> status := Processing, updatedAt := now \<rparr> = x"
    then have "status (x\<lparr> status := Processing, updatedAt := now \<rparr>) = status x" by simp
    with a show False by simp
  qed
  from updateOne_modified_iff[of "\<lambda>n. ident n = i \<and> status n = Pending"
      "\<lambda>n. n\<lparr> status := Processing, updatedAt := now \<rparr>", OF this]
  show ?thesis by (simp add: markNotificationProcessing_def Let_def)
qed

lemma claim_fail_unchanged:
  assumes "\<not> snd (markNotificationProcessing now i db)"
  shows "fst (markNotificationProcessing now i db) = db"
proof -
  from assms have "\<forall>n \<in> set db. \<not> (ident n = i \<and> status n = Pending)"
    by (simp add: claim_result_iff)
  then have "findOne (\<lambda>n. ident n = i \<and> status n = Pending) db = None"
    by (simp add: findOne_None_iff)
  then show ?thesis
    by (simp add: markNotificationProcessing_def Let_def updateOne_no_match)
qed

lemma claim_success_update:
  assumes "snd (markNotificationProcessing now i db)"
  shows "\<exists>k < length db. ident (db ! k) = i \<and> status (db ! k) = Pending
           \<and> (\<forall>j < k. \<not> (ident (db ! j) = i \<and> status (db ! j) = Pending))
           \<and> fst (markNotificationProcessing now i db)
               = db[k := (db ! k)\<lparr> status := Processing, updatedAt := now \<rparr>]"
proof -
  from assms have "\<exists>n \<in> set db. ident n = i \<and> status n = Pending"
    by (simp add: claim_result_iff)
  from updateOne_first_match[of db "\<lambda>n. ident n = i \<and> status n = Pending", OF this]
  show ?thesis by (simp add: markNotificationProcessing_def Let_def)
qed

lemma claim_twice:
  assumes "distinct (map ident db)"
  shows "\<not> snd (markNotificationProcessing now' i (fst (markNotificationProcessing now i db)))"
proof (cases "snd (markNotificationProcessing now i db)")
  case False
  then show ?thesis using claim_fail_unchanged[OF False] by (simp add: claim_result_iff)
next
  case True
  from claim_success_update[OF True] obtain k where k: "k < length db" "ident (db ! k) = i"
    "fst (markNotificationProcessing now i db) = db[k := (db ! k)\<lparr> status := Processing, updatedAt := now \<rparr>]"
    by blast
  let ?db' = "db[k := (db ! k)\<lparr> status := Processing, updatedAt := now \<rparr>]"
  have "\<not> (ident n = i \<and> status n = Pending)" if "n \<in> set ?db'" for n
  proof -
    from that obtain j where j: "j < length db" "n = ?db' ! j"
      by (auto simp: in_set_conv_nth)
    show ?thesis
    proof (cases "j = k")
      case True
      with j k show ?thesis by simp
    next
      case False
      with j have n: "n = db ! j" by simp
      have "map ident db ! j \<noteq> map ident db ! k"
        using assms j(1) k(1) False by (simp only: nth_eq_iff_index_eq length_map not_False_eq_True)
      then have "ident (db ! j) \<noteq> i"
        using j(1) k(1,2) by simp
      with n show ?thesis by simp
    qed
  qed
  then show ?thesis using k by (simp add: claim_result_iff)
qed

section \<open>Bulk cancellation\<close>

lemma updateMany_map: "fst (updateMany q u xs) = map (\<lambda>x. if q x then u x else x) xs"
  by (induction xs) auto

lemma updateMany_count:
  "(\<And>x. q x \<Longrightarrow> u x \<noteq> x) \<Longrightarrow> snd (updateMany q u xs) = length (filter q xs)"
  by (induction xs) auto

lemma cancelRide_nth:
  assumes "k < length db"
  shows "fst (cancelRideNotifications now ride db) ! k =
     (if rideRequestUuid (metadata (db ! k)) = Some ride
         \<and> (status (db ! k) = Pending \<or> status (db ! k) = Processing)
      then (db ! k)\<lparr> status := Cancelled, updatedAt := now \<rparr> else db ! k)"
  using assms by (simp add: cancelRideNotifications_def updateMany_map)

lemma cancelRide_none_left:
  assumes "n \<in> set (fst (cancelRideNotifications now ride db))"
    and "rideRequestUuid (metadata n) = Some ride"
  shows "status n \<noteq> Pending \<and> status n \<noteq> Processing"
  using assms by (auto simp: cancelRideNotifications_def updateMany_map split: if_splits)

lemma cancelRide_count:
  "snd (cancelRideNotifications now ride db) =
     length (filter (\<lambda>n. rideRequestUuid (metadata n) = Some ride
                          \<and> (status n = Pending \<or> status n = Processing)) db)"
proof -
  have "x\<lparr> status := Cancelled, updatedAt := now \<rparr> \<noteq> x"
    if a: "rideRequestUuid (metadata x) = Some ride \<and> (status x = Pending \<or> status x = Processing)"
    for x :: NotificationItem
  proof
    assume "x\<lparr> status := Cancelled, updatedAt := now \<rparr> = x"
    then have "status (x\<lparr> status := Cancelled, updatedAt := now \<rparr>) = status x" by simp
    with a show False by auto
  qed
  from updateMany_count[of _ "\<lambda>n. n\<lparr> status := Cancelled, updatedAt := now \<rparr>", OF this]
  show ?thesis by (simp add: cancelRideNotifications_def)
qed

section \<open>Single steps and runs\<close>

lemma applyOp_length: "length (applyOp cfg now op db) = length db"
  by (cases op)
     (simp_all add: markNotificationProcessing_def markNotificationSent_def
        markNotificationFailed_def cancelNotification_def cancelRideNotifications_def
        length_updateOne length_updateMany Let_def split: option.splits)

lemma runOps_length: "length (runOps cfg ops db) = length db"
  unfolding runOps_def
  by (induction ops arbitrary: db) (simp_all add: applyOp_length)

lemma runOps_snoc: "runOps cfg (ops @ [c]) db = applyOp cfg (fst c) (snd c) (runOps cfg ops db)"
  by (simp add: runOps_def)

text \<open>What each operation does at each position of the collection.\<close>

lemma firstMatchAt_iff:
  "firstMatchAt q xs k \<longleftrightarrow> k < length xs \<and> q (xs ! k) \<and> (\<forall>j < k. \<not> q (xs ! j))"
proof (induction q xs k rule: firstMatchAt.induct)
  case (1 q k)
  then show ?case by simp
next
  case (2 q x xs)
  then show ?case by simp
next
  case (3 q x xs k)
  have "(\<forall>j < Suc k. \<not> q ((x # xs) ! j)) \<longleftrightarrow> \<not> q x \<and> (\<forall>j < k. \<not> q (xs ! j))"
    by (auto simp: less_Suc_eq_0_disj)
  with 3 show ?case by auto
qed

lemma updateOne_nth:
  "k < length xs \<Longrightarrow>
   fst (updateOne q u xs) ! k = (if firstMatchAt q xs k then u (xs ! k) else xs ! k)"
proof (induction q xs k rule: firstMatchAt.induct)
  case (1 q k)
  then show ?case by simp
next
  case (2 q x xs)
  then show ?case by simp
next
  case (3 q x xs k)
  then show ?case by simp
qed

lemma findOne_firstMatchAt:
  "firstMatchAt q xs k \<Longrightarrow> findOne q xs = Some (xs ! k)"
  by (induction q xs k rule: firstMatchAt.induct) simp_all

lemma markProcessing_nth:
  assumes "k < length db"
  shows "fst (markNotificationProcessing now i db) ! k =
     (if firstMatchAt (\<lambda>n. ident n = i \<and> status n = Pending) db k
      then (db ! k)\<lparr> status := Processing, updatedAt := now \<rparr> else db ! k)"
  using assms by (simp add: markNotificationProcessing_def Let_def updateOne_nth)

lemma markSent_nth:
  assumes "k < length db"
  shows "fst (markNotificationSent now i db) ! k =
     (if firstMatchAt (\<lambda>n. ident n = i) db k
      then (db ! k)\<lparr> status := Sent, updatedAt := now \<rparr> else db ! k)"
  using assms by (simp add: markNotificationSent_def Let_def updateOne_nth)

lemma cancelOne_nth:
  assumes "k < length db"
  shows "fst (cancelNotification now i db) ! k =
     (if firstMatchAt (\<lambda>n. ident n = i) db k
      then (db ! k)\<lparr> status := Cancelled, updatedAt := now \<rparr> else db ! k)"
  using assms by (simp add: cancelNotification_def Let_def updateOne_nth)

lemma markFailed_nth:
  assumes "k < length db"
  shows "fst (markNotificationFailed cfg now i err db) ! k =
     (if firstMatchAt (\<lambda>n. ident n = i) db k then failedOnce cfg err (db ! k) now else db ! k)"
proof (cases "findOne (\<lambda>n. ident n = i) db")
  case None
  then have "\<not> firstMatchAt (\<lambda>n. ident n = i) db k"
    using findOne_firstMatchAt[of "\<lambda>n. ident n = i" db k] by auto
  with None show ?thesis by (simp add: markNotificationFailed_def)
next
  case (Some a)
  show ?thesis
  proof (cases "firstMatchAt (\<lambda>n. ident n = i) db k")
    case True
    with Some have "a = db ! k"
      using findOne_firstMatchAt[of "\<lambda>n. ident n = i" db k] by simp
    with True Some assms show ?thesis
      by (simp add: markNotificationFailed_def Let_def updateOne_nth failedOnce_def)
  next
    case False
    with Some assms show ?thesis
      by (simp add: markNotificationFailed_def Let_def updateOne_nth)
  qed
qed

text \<open>
  The document that \<open>markNotificationFailed\<close> rewrites is the one it read: at the
  position it changes, the new document is \<open>failedOnce\<close> of the old one.
\<close>

lemma markFailed_nth_cases:
  assumes "k < length db"
  shows "fst (markNotificationFailed cfg now i err db) ! k = db ! k
         \<or> fst (markNotificationFailed cfg now i err db) ! k = failedOnce cfg err (db ! k) now"
proof (cases "findOne (\<lambda>n. ident n = i) db")
  case None
  then show ?thesis by (simp add: markNotificationFailed_def)
next
  case (Some notification)
  from updateOne_nth_cases[OF assms, of "\<lambda>n. ident n = i" "failedUpdate cfg now err notification"]
  show ?thesis
  proof
    assume "fst (updateOne (\<lambda>n. ident n = i) (failedUpdate cfg now err notification) db) ! k = db ! k"
    with Some show ?thesis by (simp add: markNotificationFailed_def Let_def)
  next
    assume a: "ident (db ! k) = i \<and> findOne (\<lambda>n. ident n = i) db = Some (db ! k)
       \<and> fst (updateOne (\<lambda>n. ident n = i) (failedUpdate cfg now err notification) db) ! k
           = failedUpdate cfg now err notification (db ! k)"
    with Some have "notification = db ! k" by simp
    with a Some show ?thesis
      by (simp add: markNotificationFailed_def Let_def failedOnce_def)
  qed
qed

lemma retryCount_failedOnce: "retryCount (failedOnce cfg err n t) = retryCount n + 1"
  by (simp add: failedOnce_def failedUpdate_def Let_def)

lemma status_failedOnce:
  "status (failedOnce cfg err n t) = (if retryCount n < maxRetriesCfg cfg then Pending else Failed)"
  by (simp add: failedOnce_def failedUpdate_def Let_def)

lemma scheduledTime_failedOnce:
  "scheduledTime (failedOnce cfg err n t)
     = (if retryCount n < maxRetriesCfg cfg then At (t + retryDelay cfg (retryCount n)) else IsNull)"
  by (simp add: failedOnce_def failedUpdate_def Let_def)

section \<open>Repeated failures\<close>

lemma findOne_updateOne:
  "(\<And>x. q x \<Longrightarrow> q (u x)) \<Longrightarrow> findOne q (fst (updateOne q u xs)) = map_option u (findOne q xs)"
  by (induction xs) auto

lemma ident_failedUpdate: "ident (failedUpdate cfg now err a n) = ident n"
  by (simp add: failedUpdate_def Let_def)

lemma findOne_markFailed:
  "findOne (\<lambda>n. ident n = i) (fst (markNotificationFailed cfg now i err db))
     = map_option (\<lambda>n. failedOnce cfg err n now) (findOne (\<lambda>n. ident n = i) db)"
proof (cases "findOne (\<lambda>n. ident n = i) db")
  case None
  then show ?thesis by (simp add: markNotificationFailed_def)
next
  case (Some a)
  have "findOne (\<lambda>n. ident n = i) (fst (updateOne (\<lambda>n. ident n = i) (failedUpdate cfg now err a) db))
          = map_option (failedUpdate cfg now err a) (findOne (\<lambda>n. ident n = i) db)"
    by (rule findOne_updateOne) (simp add: ident_failedUpdate)
  with Some show ?thesis by (simp add: markNotificationFailed_def Let_def failedOnce_def)
qed

lemma markFailedAt_snoc:
  "markFailedAt cfg i err (ts @ [t]) db
     = fst (markNotificationFailed cfg t i err (markFailedAt cfg i err ts db))"
  by (simp add: markFailedAt_def runOps_def)

lemma findOne_markFailedAt:
  "findOne (\<lambda>n. ident n = i) (markFailedAt cfg i err ts db)
     = map_option (\<lambda>n. foldl (failedOnce cfg err) n ts) (findOne (\<lambda>n. ident n = i) db)"
proof (induction ts rule: rev_induct)
  case Nil
  then show ?case by (simp add: markFailedAt_def runOps_def option.map_ident)
next
  case (snoc t ts)
  then show ?case
    by (simp add: markFailedAt_snoc findOne_markFailed option.map_comp comp_def)
qed

lemma retryCount_after:
  "retryCount (foldl (failedOnce cfg err) n ts) = retryCount n + length ts"
  by (induction ts rule: rev_induct) (simp_all add: retryCount_failedOnce)

lemma status_after:
  "ts \<noteq> [] \<Longrightarrow>
   status (foldl (failedOnce cfg err) n ts)
     = (if retryCount n + length ts \<le> maxRetriesCfg cfg then Pending else Failed)"
  by (cases ts rule: rev_cases) (auto simp: status_failedOnce retryCount_after)

lemma scheduledTime_after:
  "ts \<noteq> [] \<Longrightarrow> retryCount n + length ts \<le> maxRetriesCfg cfg \<Longrightarrow>
   scheduledTime (foldl (failedOnce cfg err) n ts)
     = At (last ts + retryDelay cfg (retryCount n + length ts - 1))"
  by (cases ts rule: rev_cases) (auto simp: scheduledTime_failedOnce retryCount_after)

lemma retryCount_mono_step:
  assumes "k < length db"
  shows "retryCount (db ! k) \<le> retryCount (applyOp cfg now op db ! k)"
proof (cases op)
  case (MarkProcessing i)
  with updateOne_nth_cases[OF assms, of "\<lambda>n. ident n = i \<and> status n = Pending"
           "\<lambda>n. n\<lparr> status := Processing, updatedAt := now \<rparr>"]
  show ?thesis by (auto simp: markNotificationProcessing_def Let_def)
next
  case (MarkSent i)
  with updateOne_nth_cases[OF assms, of "\<lambda>n. ident n = i"
           "\<lambda>n. n\<lparr> status := Sent, updatedAt := now \<rparr>"]
  show ?thesis by (auto simp: markNotificationSent_def Let_def)
next
  case (MarkFailed i err)
  with markFailed_nth_cases[OF assms, of cfg now i err]
  show ?thesis by (auto simp: retryCount_failedOnce)
next
  case (CancelOne i)
  with updateOne_nth_cases[OF assms, of "\<lambda>n. ident n = i"
           "\<lambda>n. n\<lparr> status := Cancelled, updatedAt := now \<rparr>"]
  show ?thesis by (auto simp: cancelNotification_def Let_def)
next
  case (CancelRide r)
  with assms show ?thesis by (simp add: cancelRideNotifications_def updateMany_map)
qed

section \<open>Statistics\<close>

lemma count_sum:
  "countStatus Pending db + countStatus Processing db + countStatus Sent db
     + countStatus Failed db + countStatus Cancelled db = length db"
proof (induction db)
  case Nil
  then show ?case by (simp add: countStatus_def)
next
  case (Cons a db)
  then show ?case by (cases "status a") (simp_all add: countStatus_def)
qed

section \<open>Listing and the dispatch pass\<close>

lemma set_insertSorted: "set (insertSorted x xs) = insert x (set xs)"
  by (induction xs) auto

lemma set_sortDocs: "set (sortDocs xs) = set xs"
  unfolding sortDocs_def by (induction xs) (simp_all add: set_insertSorted)

lemma length_insertSorted: "length (insertSorted x xs) = Suc (length xs)"
  by (induction xs) auto

lemma length_sortDocs: "length (sortDocs xs) = length xs"
  unfolding sortDocs_def by (induction xs) (simp_all add: length_insertSorted)

lemma set_limitDocs: "set (limitDocs n xs) \<subseteq> set xs"
  by (auto simp: limitDocs_def dest: in_set_takeD)

lemma limitDocs_all: "n = 0 \<or> length xs \<le> n \<Longrightarrow> limitDocs n xs = xs"
  by (auto simp: limitDocs_def)

lemma getPending_sound:
  assumes "x \<in> set (getPendingNotifications now limit db)"
  shows "x \<in> set db \<and> pendingFilter now x"
proof -
  from assms have "x \<in> set (limitDocs limit (sortDocs (filter (pendingFilter now) db)))"
    by (simp add: getPendingNotifications_def)
  with set_limitDocs[of limit "sortDocs (filter (pendingFilter now) db)"]
  have "x \<in> set (sortDocs (filter (pendingFilter now) db))" by blast
  then show ?thesis by (simp add: set_sortDocs)
qed

lemma getPending_complete:
  assumes "x \<in> set db" and "pendingFilter now x"
    and "limit = 0 \<or> length (filter (pendingFilter now) db) \<le> limit"
  shows "x \<in> set (getPendingNotifications now limit db)"
proof -
  have "limitDocs limit (sortDocs (filter (pendingFilter now) db)) = sortDocs (filter (pendingFilter now) db)"
    using assms(3) by (intro limitDocs_all) (simp add: length_sortDocs)
  with assms(1,2) show ?thesis
    by (simp add: getPendingNotifications_def set_sortDocs)
qed

lemma startEach_length: "length (fst (startEach cfg now ns pc dec db)) = length db"
  by (induction ns arbitrary: pc dec db)
     (simp_all add: markNotificationProcessing_def Let_def length_updateOne)

lemma startEach_nth_other:
  "k < length db \<Longrightarrow> \<forall>n \<in> set ns. ident n \<noteq> ident (db ! k) \<Longrightarrow>
   fst (startEach cfg now ns pc dec db) ! k = db ! k"
proof (induction ns arbitrary: pc dec db)
  case Nil
  then show ?case by simp
next
  case (Cons a ns)
  let ?db' = "fst (markNotificationProcessing now (ident a) db)"
  have "\<not> (ident (db ! k) = ident a \<and> status (db ! k) = Pending)"
    using Cons.prems(2) by auto
  then have same: "?db' ! k = db ! k"
    using Cons.prems(1)
    by (simp add: markNotificationProcessing_def Let_def updateOne_nth_unmatched)
  have len: "k < length ?db'"
    using Cons.prems(1) by (simp add: markNotificationProcessing_def Let_def length_updateOne)
  have "fst (startEach cfg now ns pc' dec' ?db') ! k = ?db' ! k" for pc' dec'
    using Cons.prems(2) same by (intro Cons.IH[OF len]) simp
  with same show ?case by simp
qed

lemma mset_insertSorted: "mset (insertSorted x xs) = add_mset x (mset xs)"
  by (induction xs) auto

lemma mset_sortDocs: "mset (sortDocs xs) = mset xs"
  unfolding sortDocs_def by (induction xs) (simp_all add: mset_insertSorted)

lemma pendingFilter_iff:
  "pendingFilter now x \<longleftrightarrow>
     status x = Pending \<and> (scheduledTime x = Absent \<or> (\<exists>t \<le> now. scheduledTime x = At t))"
  by (cases "scheduledTime x") (simp_all add: pendingFilter_def)

lemma dispatchRound_skips_future:
  assumes d: "distinct (map ident db)" and k: "k < length db"
    and s: "scheduledTime (db ! k) = At t" and f: "now < t"
  shows "fst (dispatchRound cfg now pc db) ! k = db ! k"
proof (cases "pc < int (maxConcurrent cfg)")
  case False
  then show ?thesis by (simp add: dispatchRound_def)
next
  case True
  let ?ns = "getPendingNotifications now (batchSize cfg) db"
  have "ident n \<noteq> ident (db ! k)" if n: "n \<in> set ?ns" for n
  proof
    assume e: "ident n = ident (db ! k)"
    from n have nd: "n \<in> set db" and pf: "pendingFilter now n"
      using getPending_sound by blast+
    from nd obtain j where j: "j < length db" "n = db ! j"
      by (auto simp: in_set_conv_nth)
    from e j k have "map ident db ! j = map ident db ! k" by simp
    with d j(1) k have "j = k"
      by (simp only: nth_eq_iff_index_eq length_map)
    with j pf s f show False by (simp add: pendingFilter_def)
  qed
  then have "fst (startEach cfg now ?ns pc 0 db) ! k = db ! k"
    using k by (intro startEach_nth_other) simp_all
  with True show ?thesis by (simp add: dispatchRound_def)
qed

text \<open>
  The list comes out in the order of the sort specification as the store compares the
  keys: by priority string downwards, then by \<open>createdAt\<close> upwards.
\<close>

lemma sortLe_total: "sortLe a b \<or> sortLe b a"
  by (auto simp: sortLe_def)

lemma sortLe_trans: "sortLe a b \<Longrightarrow> sortLe b c \<Longrightarrow> sortLe a c"
  by (auto simp: sortLe_def)

lemma sorted_insertSorted:
  "sorted_wrt sortLe xs \<Longrightarrow> sorted_wrt sortLe (insertSorted x xs)"
proof (induction xs)
  case Nil
  then show ?case by simp
next
  case (Cons y ys)
  show ?case
  proof (cases "sortLe x y")
    case True
    with Cons.prems show ?thesis
      by (auto intro: sortLe_trans)
  next
    case False
    with sortLe_total[of x y] have "sortLe y x" by simp
    with Cons False show ?thesis
      by (auto simp: set_insertSorted)
  qed
qed

lemma sorted_sortDocs: "sorted_wrt sortLe (sortDocs xs)"
  unfolding sortDocs_def by (induction xs) (simp_all add: sorted_insertSorted)

lemma getPending_sorted: "sorted_wrt sortLe (getPendingNotifications now limit db)"
  by (simp add: getPendingNotifications_def limitDocs_def sorted_sortDocs sorted_wrt_take)

section \<open>Claims\<close>

text \<open>
  C10: for an id that no notification of the queue carries, \<open>markNotificationFailed\<close>
  returns false and the collection is the one it was given: no status, retryCount,
  scheduledTime or metadata of any item changes.
\<close>

theorem markNotificationFailed_unknown_id:
  assumes "\<forall>n \<in> set db. ident n \<noteq> i"
  shows "markNotificationFailed cfg now i err db = (db, False)"
proof -
  from assms have "findOne (\<lambda>n. ident n = i) db = None"
    by (simp add: findOne_None_iff)
  then show ?thesis
    by (simp add: markNotificationFailed_def)
qed

theorem markNotificationFailed_unknown_id_witness:
  "markNotificationFailed defaultConfig 2000 ''notif_2'' ''SMS sending failed'' queueOne
     = (queueOne, False)"
  using markNotificationFailed_unknown_id
          [of queueOne "''notif_2''" defaultConfig 2000 "''SMS sending failed''"]
  by (simp add: queueOne_def addSMSNotification_def addNotification_def)

text \<open>
  C4: \<open>markNotificationProcessing\<close> is a compare-and-set. It returns true exactly when
  the queue holds a pending item with the id; it then sets the first such item to
  processing (with \<open>updatedAt\<close> the clock reading) and touches nothing else. When it
  returns false (the item has another status, or no item has the id) the collection is
  unchanged. With unique ids, a second claim of the same id fails, whenever it comes:
  of two claims of one pending item exactly one succeeds.
\<close>

theorem markNotificationProcessing_compare_and_set:
  "(snd (markNotificationProcessing now i db)
      \<longleftrightarrow> (\<exists>n \<in> set db. ident n = i \<and> status n = Pending))
   \<and> (\<not> snd (markNotificationProcessing now i db)
        \<longrightarrow> fst (markNotificationProcessing now i db) = db)
   \<and> (snd (markNotificationProcessing now i db)
        \<longrightarrow> (\<exists>k < length db. ident (db ! k) = i \<and> status (db ! k) = Pending
               \<and> fst (markNotificationProcessing now i db)
                   = db[k := (db ! k)\<lparr> status := Processing, updatedAt := now \<rparr>]))
   \<and> (distinct (map ident db)
        \<longrightarrow> \<not> snd (markNotificationProcessing now' i (fst (markNotificationProcessing now i db))))"
  using claim_result_iff[of now i db] claim_fail_unchanged[of now i db]
    claim_success_update[of now i db] claim_twice[of db now' i now]
  by blast

theorem markNotificationProcessing_compare_and_set_witness:
  "snd (markNotificationProcessing 2000 ''notif_1'' queueOne)
   \<and> map status (fst (markNotificationProcessing 2000 ''notif_1'' queueOne)) = [Processing]
   \<and> \<not> snd (markNotificationProcessing 3000 ''notif_1''
              (fst (markNotificationProcessing 2000 ''notif_1'' queueOne)))
   \<and> \<not> snd (markNotificationProcessing 2000 ''notif_2'' queueOne)
   \<and> fst (markNotificationProcessing 2000 ''notif_2'' queueOne) = queueOne"
  using markNotificationProcessing_compare_and_set [of 2000 "''notif_1''" queueOne 3000]
    markNotificationProcessing_compare_and_set [of 2000 "''notif_2''" queueOne 3000]
  by (simp add: queueOne_def addSMSNotification_def addNotification_def
        markNotificationProcessing_def)

text \<open>
  C6: \<open>cancelRideNotifications\<close> for ride \<open>C\<close> sets every item tied to \<open>C\<close> that is
  pending or processing to cancelled and leaves every other item (the sent, failed and
  cancelled items of \<open>C\<close>, and the items of other rides) as it was; afterwards no item
  tied to \<open>C\<close> is pending or processing; the call returns the number of items it
  cancelled.
\<close>

theorem cancelRideNotifications_cancels_active:
  "length (fst (cancelRideNotifications now ride db)) = length db
   \<and> (\<forall>k < length db.
         fst (cancelRideNotifications now ride db) ! k =
           (if rideRequestUuid (metadata (db ! k)) = Some ride
               \<and> (status (db ! k) = Pending \<or> status (db ! k) = Processing)
            then (db ! k)\<lparr> status := Cancelled, updatedAt := now \<rparr> else db ! k))
   \<and> (\<forall>n \<in> set (fst (cancelRideNotifications now ride db)).
         rideRequestUuid (metadata n) = Some ride \<longrightarrow> status n \<noteq> Pending \<and> status n \<noteq> Processing)
   \<and> snd (cancelRideNotifications now ride db) =
       length (filter (\<lambda>n. rideRequestUuid (metadata n) = Some ride
                            \<and> (status n = Pending \<or> status n = Processing)) db)"
proof -
  have "length (fst (cancelRideNotifications now ride db)) = length db"
    by (simp add: cancelRideNotifications_def length_updateMany)
  then show ?thesis
    using cancelRide_nth[of _ db now ride] cancelRide_none_left[of _ now ride db]
      cancelRide_count[of now ride db]
    by blast
qed

theorem cancelRideNotifications_cancels_active_witness:
  "map status queueRides = [Pending, Processing, Sent, Pending]
   \<and> map status (fst (cancelRideNotifications 2000 ''42'' queueRides))
       = [Cancelled, Cancelled, Sent, Pending]
   \<and> snd (cancelRideNotifications 2000 ''42'' queueRides) = 2"
  using cancelRideNotifications_cancels_active [of 2000 "''42''" queueRides]
  by (simp add: queueRides_def addRideUpdateNotification_def addNotification_def
        markNotificationProcessing_def markNotificationSent_def cancelRideNotifications_def
        emptyMetadata_def Let_def)

text \<open>
  C8: given the change of the ride-progress status to code 300 for a ride whose
  \<open>serviceUserUuid\<close> is \<open>R\<close>, the translator stores and emits exactly one event: its
  kind is \<open>RIDER_PICKED_UP\<close>, its \<open>serviceUserUuid\<close> is \<open>R\<close> and its ride is the
  ride's \<open>uuid\<close>. Nothing else is added to the emit log or to the stored events.
\<close>

theorem status_300_emits_one_RIDER_PICKED_UP:
  "emitted (handleAutomaticRideStatusChange newId now rideRequest 300 previousStatus mgr)
     = emitted mgr @ [(RIDER_PICKED_UP,
         \<lparr> identE = newId, rideRequestUuidE = uuid rideRequest,
           serviceUserUuid = serviceUserUuidR rideRequest,
           driverUuid = Some (parseIntOf (assignedDriverUuid rideRequest)),
           vehicleUuid = None, eventType = RIDER_PICKED_UP, timestamp = now,
           metadataE = [], createdAtE = now \<rparr>)]
   \<and> rideEvents (handleAutomaticRideStatusChange newId now rideRequest 300 previousStatus mgr)
     = rideEvents mgr @ [\<lparr> identE = newId, rideRequestUuidE = uuid rideRequest,
           serviceUserUuid = serviceUserUuidR rideRequest,
           driverUuid = Some (parseIntOf (assignedDriverUuid rideRequest)),
           vehicleUuid = None, eventType = RIDER_PICKED_UP, timestamp = now,
           metadataE = [], createdAtE = now \<rparr>]"
  by (simp add: handleAutomaticRideStatusChange_def riderPickedUp_def baseEvent_def
        emit_def storeEvent_def Let_def)

text \<open>
  C1, as the code has it: along every run of queue operations, a step rewrites only
  the documents its operation selects and leaves every other item as it was.
  \<open>markNotificationProcessing\<close> selects the first pending item with the id and makes
  it processing; \<open>cancelRideNotifications\<close> selects the pending and processing items of
  the ride and makes them cancelled; \<open>markNotificationSent\<close>, \<open>markNotificationFailed\<close>
  and \<open>cancelNotification\<close> select the first item with the id, and when that item is
  pending or processing they make it sent, respectively pending again (when its
  \<open>retryCount\<close> is below the queue's \<open>maxRetries\<close>, with \<open>scheduledTime\<close> the clock
  reading plus the backoff) or failed (otherwise), respectively cancelled. So the
  status of a pending or processing item moves only along pending to processing,
  pending or processing to sent, to pending, to failed and to cancelled.
\<close>

theorem status_changes_along_code_edges:
  assumes "j < length ops"
    and "d = runOps cfg (take j ops) db"
    and "d' = runOps cfg (take (Suc j) ops) db"
    and "now = fst (ops ! j)"
  shows "length d' = length d
   \<and> (\<forall>k < length d.
        (case snd (ops ! j) of
           MarkProcessing i \<Rightarrow>
             d' ! k = (if firstMatchAt (\<lambda>n. ident n = i \<and> status n = Pending) d k
                       then (d ! k)\<lparr> status := Processing, updatedAt := now \<rparr> else d ! k)
         | MarkSent i \<Rightarrow>
             (\<not> firstMatchAt (\<lambda>n. ident n = i) d k \<longrightarrow> d' ! k = d ! k)
             \<and> (firstMatchAt (\<lambda>n. ident n = i) d k
                  \<and> (status (d ! k) = Pending \<or> status (d ! k) = Processing)
                \<longrightarrow> d' ! k = (d ! k)\<lparr> status := Sent, updatedAt := now \<rparr>)
         | MarkFailed i err \<Rightarrow>
             (\<not> firstMatchAt (\<lambda>n. ident n = i) d k \<longrightarrow> d' ! k = d ! k)
             \<and> (firstMatchAt (\<lambda>n. ident n = i) d k
                  \<and> (status (d ! k) = Pending \<or> status (d ! k) = Processing)
                \<longrightarrow> d' ! k = failedOnce cfg err (d ! k) now
                    \<and> status (d' ! k)
                        = (if retryCount (d ! k) < maxRetriesCfg cfg then Pending else Failed)
                    \<and> (retryCount (d ! k) < maxRetriesCfg cfg
                        \<longrightarrow> scheduledTime (d' ! k)
                              = At (now + retryDelay cfg (retryCount (d ! k)))))
         | CancelOne i \<Rightarrow>
             (\<not> firstMatchAt (\<lambda>n. ident n = i) d k \<longrightarrow> d' ! k = d ! k)
             \<and> (firstMatchAt (\<lambda>n. ident n = i) d k
                  \<and> (status (d ! k) = Pending \<or> status (d ! k) = Processing)
                \<longrightarrow> d' ! k = (d ! k)\<lparr> status := Cancelled, updatedAt := now \<rparr>)
         | CancelRide r \<Rightarrow>
             d' ! k = (if rideRequestUuid (metadata (d ! k)) = Some r
                          \<and> (status (d ! k) = Pending \<or> status (d ! k) = Processing)
                       then (d ! k)\<lparr> status := Cancelled, updatedAt := now \<rparr> else d ! k)))"
proof -
  have "take (Suc j) ops = take j ops @ [ops ! j]"
    using assms(1) by (simp add: take_Suc_conv_app_nth)
  then have step: "d' = applyOp cfg now (snd (ops ! j)) d"
    using assms(2,3,4) by (simp add: runOps_snoc)
  then have len: "length d' = length d"
    by (simp add: applyOp_length)
  show ?thesis
  proof (cases "snd (ops ! j)")
    case (MarkProcessing i)
    with step len show ?thesis by (simp add: markProcessing_nth)
  next
    case (MarkSent i)
    with step len show ?thesis by (simp add: markSent_nth)
  next
    case (MarkFailed i err)
    with step len show ?thesis
      by (simp add: markFailed_nth status_failedOnce scheduledTime_failedOnce)
  next
    case (CancelOne i)
    with step len show ?thesis by (simp add: cancelOne_nth)
  next
    case (CancelRide r)
    with step len show ?thesis by (simp add: cancelRide_nth)
  qed
qed


theorem status_changes_along_code_edges_witness:
  "(1::nat) < length exampleOps
   \<and> map (\<lambda>j. status (runOps defaultConfig (take j exampleOps) queueOne ! 0)) [0, 1, 2, 3, 4]
       = [Pending, Processing, Pending, Processing, Sent]
   \<and> runOps defaultConfig (take (Suc 1) exampleOps) queueOne ! 0
       = failedOnce defaultConfig ''SMS sending failed''
           (runOps defaultConfig (take 1 exampleOps) queueOne ! 0) 3000
   \<and> scheduledTime (runOps defaultConfig (take (Suc 1) exampleOps) queueOne ! 0) = At 4000"
proof -
  let ?d = "runOps defaultConfig (take 1 exampleOps) queueOne"
  have h1: "(1::nat) < length exampleOps" by (simp add: exampleOps_def)
  have op: "snd (exampleOps ! 1) = MarkFailed ''notif_1'' ''SMS sending failed''"
    and t: "fst (exampleOps ! 1) = 3000"
    by (simp_all add: exampleOps_def)
  have d: "?d = fst (markNotificationProcessing 2000 ''notif_1'' queueOne)"
    by (simp add: exampleOps_def runOps_def)
  have pre: "0 < length ?d" "firstMatchAt (\<lambda>n. ident n = ''notif_1'') ?d 0"
    "status (?d ! 0) = Pending \<or> status (?d ! 0) = Processing"
    "retryCount (?d ! 0) < maxRetriesCfg defaultConfig"
    "retryCount (?d ! 0) = 0"
    unfolding d
    by (simp_all add: queueOne_def addSMSNotification_def addNotification_def
          markNotificationProcessing_def defaultConfig_def)
  note step = status_changes_along_code_edges [OF h1 refl refl refl, of defaultConfig queueOne,
      THEN conjunct2, THEN spec, of 0, THEN mp, OF pre(1), unfolded op QueueOp.case t,
      THEN conjunct2, THEN mp, OF conjI, OF pre(2) pre(3)]
  from step pre(4) have moved:
    "runOps defaultConfig (take (Suc 1) exampleOps) queueOne ! 0
       = failedOnce defaultConfig ''SMS sending failed'' (?d ! 0) 3000
     \<and> scheduledTime (runOps defaultConfig (take (Suc 1) exampleOps) queueOne ! 0)
       = At (3000 + retryDelay defaultConfig (retryCount (?d ! 0)))"
    by blast
  have delay: "retryDelay defaultConfig 0 = 1000"
    by (simp add: retryDelay_def defaultConfig_def)
  have statuses:
    "map (\<lambda>j. status (runOps defaultConfig (take j exampleOps) queueOne ! 0)) [0, 1, 2, 3, 4]
       = [Pending, Processing, Pending, Processing, Sent]"
    by (simp add: exampleOps_def queueOne_def addSMSNotification_def addNotification_def
          runOps_def markNotificationProcessing_def markNotificationSent_def
          markNotificationFailed_def failedUpdate_def retryDelay_def
          defaultConfig_def emptyMetadata_def Let_def)
  from moved have m1:
    "runOps defaultConfig (take (Suc 1) exampleOps) queueOne ! 0
       = failedOnce defaultConfig ''SMS sending failed'' (?d ! 0) 3000"
    by (rule conjunct1)
  have m2:
    "scheduledTime (runOps defaultConfig (take (Suc 1) exampleOps) queueOne ! 0) = At 4000"
    using moved[THEN conjunct2, unfolded pre(5) delay] by simp
  from h1 statuses m1 m2 show ?thesis by (intro conjI)
qed

text \<open>
  C1 as stated fails: \<open>markNotificationSent\<close> succeeds on an item that is pending and
  never was processing, and makes it sent; \<open>markNotificationFailed\<close> takes a processing
  item straight back to pending, without the item ever being failed; and the call
  after the retries are used up takes the item from pending to failed.
\<close>

theorem mark_calls_leave_the_listed_edges:
  "map status queueOne = [Pending]
   \<and> snd (markNotificationSent 2000 ''notif_1'' queueOne)
   \<and> map status (fst (markNotificationSent 2000 ''notif_1'' queueOne)) = [Sent]
   \<and> map status (runOps defaultConfig (take 1 exampleOps) queueOne) = [Processing]
   \<and> map (\<lambda>n. (status n, scheduledTime n)) (runOps defaultConfig (take 2 exampleOps) queueOne)
       = [(Pending, At 4000)]
   \<and> map status
        (markFailedAt defaultConfig ''notif_1'' ''SMS sending failed'' [2000, 4000, 10000] queueOne)
       = [Pending]
   \<and> map status
        (markFailedAt defaultConfig ''notif_1'' ''SMS sending failed'' [2000, 4000, 10000, 26000]
           queueOne)
       = [Failed]"
  by (simp add: exampleOps_def queueOne_def addSMSNotification_def addNotification_def
        runOps_def markFailedAt_def markNotificationProcessing_def markNotificationSent_def
        markNotificationFailed_def failedUpdate_def retryDelay_def
        defaultConfig_def emptyMetadata_def Let_def)

text \<open>
  C2, as the code has it: with the queue's \<open>maxRetries\<close> at 3 and an item whose
  \<open>retryCount\<close> is 0, each of the first three \<open>markNotificationFailed\<close> calls requeues
  the item (status pending, \<open>scheduledTime\<close> the clock reading plus the backoff) and
  leaves \<open>retryCount\<close> at 1, 2 and 3; the fourth call and every later one leave the
  status failed. No queue operation ever lowers a \<open>retryCount\<close>.
\<close>

theorem three_failures_requeue_fourth_fails:
  assumes "maxRetriesCfg cfg = 3" and "findOne (\<lambda>n. ident n = i) db = Some n"
    and "retryCount n = 0"
  shows "(\<forall>ts. ts \<noteq> [] \<longrightarrow>
           (\<exists>m. findOne (\<lambda>n. ident n = i) (markFailedAt cfg i err ts db) = Some m
              \<and> (length ts \<le> 3 \<longrightarrow> status m = Pending \<and> retryCount m = length ts
                     \<and> scheduledTime m = At (last ts + retryDelay cfg (length ts - 1)))
              \<and> (3 < length ts \<longrightarrow> status m = Failed)))
       \<and> (\<forall>k < length db. \<forall>t op. retryCount (db ! k) \<le> retryCount (applyOp cfg t op db ! k))"
proof -
  have "\<exists>m. findOne (\<lambda>n. ident n = i) (markFailedAt cfg i err ts db) = Some m
              \<and> (length ts \<le> 3 \<longrightarrow> status m = Pending \<and> retryCount m = length ts
                     \<and> scheduledTime m = At (last ts + retryDelay cfg (length ts - 1)))
              \<and> (3 < length ts \<longrightarrow> status m = Failed)" if ts: "ts \<noteq> []" for ts
    using assms ts
    by (simp add: findOne_markFailedAt status_after retryCount_after scheduledTime_after)
  then show ?thesis
    using retryCount_mono_step by blast
qed

theorem three_failures_requeue_fourth_fails_witness:
  "maxRetriesCfg defaultConfig = 3
   \<and> map (\<lambda>n. (ident n, retryCount n, maxRetries n)) queueOne = [(''notif_1'', 0, 3)]
   \<and> map (\<lambda>n. (status n, retryCount n, scheduledTime n))
       (markFailedAt defaultConfig ''notif_1'' ''SMS sending failed'' [2000, 4000, 10000] queueOne)
     = [(Pending, 3, At 25000)]
   \<and> map status
       (markFailedAt defaultConfig ''notif_1'' ''SMS sending failed'' [2000, 4000, 10000, 26000] queueOne)
     = [Failed]
   \<and> map status
       (markFailedAt defaultConfig ''notif_1'' ''SMS sending failed''
          [2000, 4000, 10000, 26000, 27000] queueOne)
     = [Failed]"
proof -
  have h1: "maxRetriesCfg defaultConfig = 3" by (simp add: defaultConfig_def)
  have h2: "findOne (\<lambda>n. ident n = ''notif_1'') queueOne = Some (hd queueOne)"
    by (simp add: queueOne_def addSMSNotification_def addNotification_def)
  have h3: "retryCount (hd queueOne) = 0"
    by (simp add: queueOne_def addSMSNotification_def addNotification_def)
  show ?thesis
    using three_failures_requeue_fourth_fails [OF h1 h2 h3, of "''SMS sending failed''"]
    by (simp add: queueOne_def addSMSNotification_def addNotification_def
          markFailedAt_def runOps_def markNotificationFailed_def failedUpdate_def
          retryDelay_def defaultConfig_def emptyMetadata_def Let_def)
qed

text \<open>
  C2 as stated fails: after the third consecutive failure of an item enqueued with
  \<open>maxRetries = 3\<close> the status is pending, not failed; the fourth call makes it failed
  and leaves \<open>retryCount\<close> at 4.
\<close>

theorem third_failure_leaves_item_pending:
  "map (\<lambda>n. (status n, retryCount n, maxRetries n))
      (markFailedAt defaultConfig ''notif_1'' ''SMS sending failed'' [2000, 4000, 10000] queueOne)
     = [(Pending, 3, 3)]
  \<and> map (\<lambda>n. (status n, retryCount n, maxRetries n))
      (markFailedAt defaultConfig ''notif_1'' ''SMS sending failed'' [2000, 4000, 10000, 26000] queueOne)
     = [(Failed, 4, 3)]"
  by (simp add: queueOne_def addSMSNotification_def addNotification_def
        markFailedAt_def runOps_def markNotificationFailed_def failedUpdate_def
        retryDelay_def defaultConfig_def emptyMetadata_def Let_def)

text \<open>
  C3 on the code: the sort compares the stored priority strings, and as strings
  \<open>high\<close> is below \<open>low\<close>, \<open>medium\<close> and \<open>urgent\<close>. Of a high and a medium
  notification enqueued at the same instant, \<open>getPendingNotifications\<close> lists the
  medium one first, and a dispatch pass with room for one claims the medium one and
  leaves the high one pending.
\<close>

theorem getPendingNotifications_lists_medium_before_high:
  "priorityStr High < priorityStr Low \<and> priorityStr Low < priorityStr Medium
   \<and> priorityStr Medium < priorityStr Urgent
   \<and> map (\<lambda>n. (ident n, priority n, createdAt n)) queueHighMedium
       = [(''notif_1'', High, 1000), (''notif_2'', Medium, 1000)]
   \<and> map (\<lambda>n. (ident n, priority n)) (getPendingNotifications 2000 10 queueHighMedium)
       = [(''notif_2'', Medium), (''notif_1'', High)]
   \<and> map (\<lambda>n. (ident n, status n))
        (fst (dispatchRound (defaultConfig\<lparr> maxConcurrent := 1 \<rparr>) 2000 0 queueHighMedium))
       = [(''notif_1'', Pending), (''notif_2'', Processing)]"
  by (simp add: queueHighMedium_def addSMSNotification_def addNotification_def
        emptyMetadata_def defaultConfig_def Let_def getPendingNotifications_def
        pendingFilter_def sortDocs_def sortLe_def limitDocs_def dispatchRound_def
        markNotificationProcessing_def)

text \<open>
  C5, as the code has it: \<open>getPendingNotifications\<close> returns the eligible items (the
  pending items whose \<open>scheduledTime\<close> is absent or not after the clock reading) in the
  order of the sort, cut to the first \<open>limit\<close> of them unless the limit is 0. So an
  item scheduled strictly in the future is absent whatever the limit, and with unique
  ids a pass of the dispatch loop, which claims only ids of that list, leaves such an
  item as it is; a pending item whose \<open>scheduledTime\<close> is absent or has come is
  included when the limit is 0 or the eligible items number at most the limit.
\<close>

theorem getPendingNotifications_eligibility:
  "(\<exists>S. mset S = mset (filter (\<lambda>x. status x = Pending
              \<and> (scheduledTime x = Absent \<or> (\<exists>t \<le> now. scheduledTime x = At t))) db)
        \<and> sorted_wrt sortLe S
        \<and> getPendingNotifications now limit db = (if limit = 0 then S else take limit S))
   \<and> (\<forall>x \<in> set (getPendingNotifications now limit db).
         x \<in> set db \<and> status x = Pending
         \<and> (scheduledTime x = Absent \<or> (\<exists>t \<le> now. scheduledTime x = At t)))
   \<and> (\<forall>x \<in> set db.
         status x = Pending \<and> (scheduledTime x = Absent \<or> (\<exists>t \<le> now. scheduledTime x = At t))
         \<and> (limit = 0 \<or> length (filter (pendingFilter now) db) \<le> limit)
         \<longrightarrow> x \<in> set (getPendingNotifications now limit db))
   \<and> (distinct (map ident db) \<longrightarrow>
        (\<forall>k < length db. \<forall>t. scheduledTime (db ! k) = At t \<and> now < t
            \<longrightarrow> fst (dispatchRound cfg now pc db) ! k = db ! k))"
proof -
  have eq: "(\<lambda>x. status x = Pending
              \<and> (scheduledTime x = Absent \<or> (\<exists>t \<le> now. scheduledTime x = At t)))
            = pendingFilter now"
    by (rule ext) (simp add: pendingFilter_iff)
  let ?S = "sortDocs (filter (pendingFilter now) db)"
  have "mset ?S = mset (filter (pendingFilter now) db) \<and> sorted_wrt sortLe ?S
        \<and> getPendingNotifications now limit db = (if limit = 0 then ?S else take limit ?S)"
    by (simp add: mset_sortDocs sorted_sortDocs getPendingNotifications_def limitDocs_def)
  then have s: "\<exists>S. mset S = mset (filter (pendingFilter now) db) \<and> sorted_wrt sortLe S
        \<and> getPendingNotifications now limit db = (if limit = 0 then S else take limit S)"
    by blast
  have a: "x \<in> set db \<and> pendingFilter now x"
    if "x \<in> set (getPendingNotifications now limit db)" for x
    using getPending_sound[OF that] .
  have b: "x \<in> set (getPendingNotifications now limit db)"
    if "x \<in> set db" "pendingFilter now x
         \<and> (limit = 0 \<or> length (filter (pendingFilter now) db) \<le> limit)" for x
    using that by (intro getPending_complete) simp_all
  have c: "distinct (map ident db) \<longrightarrow>
        (\<forall>k < length db. \<forall>t. scheduledTime (db ! k) = At t \<and> now < t
            \<longrightarrow> fst (dispatchRound cfg now pc db) ! k = db ! k)"
    using dispatchRound_skips_future[of db _ _ now cfg pc] by blast
  have a': "\<forall>x \<in> set (getPendingNotifications now limit db).
         x \<in> set db \<and> status x = Pending
         \<and> (scheduledTime x = Absent \<or> (\<exists>t \<le> now. scheduledTime x = At t))"
    using a by (simp only: pendingFilter_iff) blast
  have b': "\<forall>x \<in> set db.
         status x = Pending \<and> (scheduledTime x = Absent \<or> (\<exists>t \<le> now. scheduledTime x = At t))
         \<and> (limit = 0 \<or> length (filter (pendingFilter now) db) \<le> limit)
         \<longrightarrow> x \<in> set (getPendingNotifications now limit db)"
  proof (intro ballI impI)
    fix x
    assume x: "x \<in> set db"
      and h: "status x = Pending \<and> (scheduledTime x = Absent \<or> (\<exists>t \<le> now. scheduledTime x = At t))
         \<and> (limit = 0 \<or> length (filter (pendingFilter now) db) \<le> limit)"
    from h have "pendingFilter now x" by (simp only: pendingFilter_iff)
    with x h show "x \<in> set (getPendingNotifications now limit db)"
      by (intro b) simp_all
  qed
  from s a' b' c show ?thesis
    unfolding eq by (intro conjI)
qed


theorem getPendingNotifications_eligibility_witness:
  "map (\<lambda>n. (status n, scheduledTime n)) queueScheduled = [(Pending, At 11000)]
   \<and> getPendingNotifications 2000 10 queueScheduled = []
   \<and> fst (dispatchRound defaultConfig 2000 0 queueScheduled) ! 0 = queueScheduled ! 0
   \<and> getPendingNotifications 12000 10 queueScheduled = queueScheduled"
proof -
  have ev: "map (\<lambda>n. (status n, scheduledTime n)) queueScheduled = [(Pending, At 11000)]"
    "getPendingNotifications 2000 10 queueScheduled = []"
    "getPendingNotifications 12000 10 queueScheduled = queueScheduled"
    by (simp_all add: queueScheduled_def addNotification_def emptyMetadata_def
          getPendingNotifications_def pendingFilter_def sortDocs_def limitDocs_def)
  have dist: "distinct (map ident queueScheduled)"
    and k: "0 < length queueScheduled"
    and st: "scheduledTime (queueScheduled ! 0) = At 11000 \<and> (2000::int) < 11000"
    by (simp_all add: queueScheduled_def addNotification_def)
  note kept = getPendingNotifications_eligibility [where now = 2000 and limit = 10
      and db = queueScheduled and cfg = defaultConfig and pc = 0,
      THEN conjunct2, THEN conjunct2, THEN conjunct2, THEN mp, OF dist,
      THEN spec, of 0, THEN mp, OF k, THEN spec, of 11000, THEN mp, OF st]
  from ev(1) ev(2) kept ev(3) show ?thesis by (intro conjI)
qed

text \<open>
  C5 as stated fails: the list is cut to the limit. Of two pending, unscheduled
  notifications, a call with limit 1 returns the first and not the second.
\<close>

theorem getPendingNotifications_limit_drops_eligible:
  "map (\<lambda>n. (ident n, status n, scheduledTime n)) queueTwo
     = [(''notif_1'', Pending, Absent), (''notif_2'', Pending, Absent)]
   \<and> map ident (getPendingNotifications 2000 1 queueTwo) = [''notif_1'']"
  by (simp add: queueTwo_def addSMSNotification_def addNotification_def emptyMetadata_def
        defaultConfig_def getPendingNotifications_def pendingFilter_def sortDocs_def
        sortLe_def limitDocs_def Let_def)

text \<open>
  C7 on the code: the sweep of \<open>processNotificationQueue\<close> measures the time since
  \<open>createdAt\<close>, over the pending and the processing notifications alike. A pending
  notification that was never claimed and is 30.001 seconds old is passed to
  \<open>markNotificationFailed\<close> without a send attempt (the sender here would succeed),
  and so is a notification that was claimed one millisecond ago.
\<close>

theorem processNotificationQueue_fails_old_pending_item:
  "map (\<lambda>n. (status n, createdAt n)) queueOne = [(Pending, 1000)]
   \<and> map (\<lambda>n. (status n, retryCount n, scheduledTime n, errors (metadata n)))
       (processNotificationQueue defaultConfig 31001 (\<lambda>n. True) queueOne)
     = [(Pending, 1, At 32001,
         [(31001, ''Timeout: Stuck in processing for over 30 seconds'', 1)])]
   \<and> map (\<lambda>n. (status n, updatedAt n))
       (fst (markNotificationProcessing 31000 ''notif_1'' queueOne)) = [(Processing, 31000)]
   \<and> map (\<lambda>n. (status n, retryCount n, scheduledTime n))
       (processNotificationQueue defaultConfig 31001 (\<lambda>n. True)
          (fst (markNotificationProcessing 31000 ''notif_1'' queueOne)))
     = [(Pending, 1, At 32001)]"
  by (simp add: queueOne_def addSMSNotification_def addNotification_def emptyMetadata_def
        defaultConfig_def Let_def processNotificationQueue_def getPendingNotifications_def
        getProcessingNotifications_def pendingFilter_def sortDocs_def sortLe_def limitDocs_def
        processOne_def markNotificationFailed_def markNotificationProcessing_def
        failedUpdate_def retryDelay_def)

text \<open>
  C9, as the code has it: the object that \<open>getQueueStats\<close> returns holds the counts of
  the pending, processing, sent and failed items under their names, and under \<open>total\<close>
  the sum of the counts of all five statuses, the cancelled items included. The count
  of the cancelled items is written too: the object carries it under the key
  \<open>cancelled\<close> whenever a cancelled item exists.
\<close>

theorem getQueueStats_counts:
  "getQueueStats db ''pending'' = Some (countStatus Pending db)
   \<and> getQueueStats db ''processing'' = Some (countStatus Processing db)
   \<and> getQueueStats db ''sent'' = Some (countStatus Sent db)
   \<and> getQueueStats db ''failed'' = Some (countStatus Failed db)
   \<and> getQueueStats db ''total'' = Some (countStatus Pending db + countStatus Processing db
        + countStatus Sent db + countStatus Failed db + countStatus Cancelled db)
   \<and> getQueueStats db ''total'' = Some (length db)
   \<and> getQueueStats db ''cancelled'' =
        (if countStatus Cancelled db = 0 then None else Some (countStatus Cancelled db))"
proof -
  have "getQueueStats db ''pending'' = Some (countStatus Pending db)
   \<and> getQueueStats db ''processing'' = Some (countStatus Processing db)
   \<and> getQueueStats db ''sent'' = Some (countStatus Sent db)
   \<and> getQueueStats db ''failed'' = Some (countStatus Failed db)
   \<and> getQueueStats db ''total'' = Some (countStatus Pending db + countStatus Processing db
        + countStatus Sent db + countStatus Failed db + countStatus Cancelled db)
   \<and> getQueueStats db ''cancelled'' =
        (if countStatus Cancelled db = 0 then None else Some (countStatus Cancelled db))"
    by (simp add: getQueueStats_def aggregateByStatus_def initialStats_def addGroup_def Let_def)
  then show ?thesis
    using count_sum[of db] by simp
qed

text \<open>
  C9 as stated fails: for a queue whose one item was cancelled, the returned object
  has a \<open>cancelled\<close> entry of its own, with the count 1.
\<close>

theorem getQueueStats_has_cancelled_entry:
  "map status (fst (cancelNotification 2000 ''notif_1'' queueOne)) = [Cancelled]
   \<and> getQueueStats (fst (cancelNotification 2000 ''notif_1'' queueOne)) ''cancelled'' = Some 1
   \<and> getQueueStats (fst (cancelNotification 2000 ''notif_1'' queueOne)) ''total'' = Some 1"
  by (simp add: queueOne_def addSMSNotification_def addNotification_def emptyMetadata_def
        defaultConfig_def cancelNotification_def getQueueStats_def aggregateByStatus_def
        countStatus_def initialStats_def addGroup_def)

end
